theory Spec2Isabelle
  imports Main "HOL-Library.Word"
begin

section \<open>The command line: \<open>osg::ArgumentParser\<close>\<close>

text \<open>
  \<open>osgearth_package.cpp\<close> reads its options through \<open>osg::ArgumentParser\<close> of the
  OpenSceneGraph library. The parser holds \<open>argv\<close>; position 0 is the program name and is
  never matched. \<open>find\<close> returns the first position \<open>\<ge> 1\<close> holding the option, a successful
  \<open>read\<close> assigns the parameters that follow it and removes option and parameters from
  \<open>argv\<close>, a failed \<open>read\<close> leaves \<open>argv\<close> as it is (it only records an error message, which
  \<open>makeTMS\<close> never looks at).
\<close>

type_synonym args = "string list"

fun find_from :: "string \<Rightarrow> string list \<Rightarrow> nat \<Rightarrow> nat option" where
  "find_from str [] pos = None"
| "find_from str (a # as) pos = (if str = a then Some pos else find_from str as (Suc pos))"

definition args_find :: "string \<Rightarrow> args \<Rightarrow> nat option" where
  "args_find str argv = find_from str (tl argv) 1"

definition args_remove :: "nat \<Rightarrow> nat \<Rightarrow> args \<Rightarrow> args" where
  "args_remove pos num argv = take pos argv @ drop (pos + num) argv"

text \<open>\<open>args.read(str)\<close>: a flag without parameter.\<close>

definition read0 :: "string \<Rightarrow> args \<Rightarrow> bool \<times> args" where
  "read0 str argv =
     (case args_find str argv of
        None \<Rightarrow> (False, argv)
      | Some pos \<Rightarrow> (True, args_remove pos 1 argv))"

text \<open>
  \<open>args.read(str, value1)\<close>: the result is the text of the parameter when the read succeeds;
  \<open>valid\<close> is the check of the parameter's type (\<open>isNumber\<close> for the numeric types, always
  true for a string).
\<close>

definition read1 :: "(string \<Rightarrow> bool) \<Rightarrow> string \<Rightarrow> args \<Rightarrow> string option \<times> args" where
  "read1 valid str argv =
     (case args_find str argv of
        None \<Rightarrow> (None, argv)
      | Some pos \<Rightarrow>
          if pos + 1 < length argv then
            if valid (argv ! (pos + 1))
            then (Some (argv ! (pos + 1)), args_remove pos 2 argv)
            else (None, argv)
          else (None, argv))"

text \<open>\<open>args.read(str, value1, value2, value3, value4)\<close>.\<close>

definition read4 ::
  "(string \<Rightarrow> bool) \<Rightarrow> string \<Rightarrow> args \<Rightarrow> (string \<times> string \<times> string \<times> string) option \<times> args" where
  "read4 valid str argv =
     (case args_find str argv of
        None \<Rightarrow> (None, argv)
      | Some pos \<Rightarrow>
          if pos + 4 < length argv then
            if valid (argv ! (pos + 1)) \<and> valid (argv ! (pos + 2)) \<and>
               valid (argv ! (pos + 3)) \<and> valid (argv ! (pos + 4))
            then (Some (argv ! (pos + 1), argv ! (pos + 2), argv ! (pos + 3), argv ! (pos + 4)),
                  args_remove pos 5 argv)
            else (None, argv)
          else (None, argv))"

text \<open>
  \<open>while (args.read(str, x)) body\<close>: \<open>upd\<close> is the assignment of the parameter followed by
  the loop body, as a function of the text read and of the state the loop works on.
\<close>

function while_read1 ::
  "(string \<Rightarrow> bool) \<Rightarrow> string \<Rightarrow> (string \<Rightarrow> 's \<Rightarrow> 's) \<Rightarrow> 's \<Rightarrow> args \<Rightarrow> 's \<times> args" where
  "while_read1 valid str upd s argv =
     (case read1 valid str argv of
        (None, argv') \<Rightarrow> (s, argv')
      | (Some v, argv') \<Rightarrow> while_read1 valid str upd (upd v s) argv')"
  by pat_completeness auto
termination
  by (relation "measure (\<lambda>(valid, str, upd, s, argv). length argv)")
     (auto simp: read1_def args_remove_def split: option.splits if_splits)

function while_read4 ::
  "(string \<Rightarrow> bool) \<Rightarrow> string \<Rightarrow> (string \<times> string \<times> string \<times> string \<Rightarrow> 's \<Rightarrow> 's) \<Rightarrow> 's \<Rightarrow>
     args \<Rightarrow> 's \<times> args" where
  "while_read4 valid str upd s argv =
     (case read4 valid str argv of
        (None, argv') \<Rightarrow> (s, argv')
      | (Some v, argv') \<Rightarrow> while_read4 valid str upd (upd v s) argv')"
  by pat_completeness auto
termination
  by (relation "measure (\<lambda>(valid, str, upd, s, argv). length argv)")
     (auto simp: read4_def args_remove_def split: option.splits if_splits)

text \<open>\<open>ArgumentParser::isOption\<close>: the argument starts with a dash.\<close>

definition isOption :: "string \<Rightarrow> bool" where
  "isOption s = (case s of [] \<Rightarrow> False | c # _ \<Rightarrow> c = CHR ''-'')"


text \<open>
  The typed reads of \<open>makeTMS\<close>. The tests and conversions of numbers
  (\<open>ArgumentParser::isNumber\<close>, \<open>atoi\<close>, \<open>asciiToDouble\<close>) belong to the library and are
  parameters here. A failed read keeps the variable's value.
\<close>

definition read_string :: "string \<Rightarrow> string \<Rightarrow> args \<Rightarrow> bool \<times> string \<times> args" where
  "read_string str cur argv =
     (case read1 (\<lambda>_. True) str argv of
        (None, argv') \<Rightarrow> (False, cur, argv')
      | (Some v, argv') \<Rightarrow> (True, v, argv'))"

definition read_uint ::
  "(string \<Rightarrow> bool) \<Rightarrow> (string \<Rightarrow> 32 word) \<Rightarrow> string \<Rightarrow> 32 word \<Rightarrow> args \<Rightarrow> 32 word \<times> args" where
  "read_uint valid conv str cur argv =
     (case read1 valid str argv of
        (None, argv') \<Rightarrow> (cur, argv')
      | (Some v, argv') \<Rightarrow> (conv v, argv'))"

definition read_int ::
  "(string \<Rightarrow> bool) \<Rightarrow> (string \<Rightarrow> int) \<Rightarrow> string \<Rightarrow> int \<Rightarrow> args \<Rightarrow> int \<times> args" where
  "read_int valid conv str cur argv =
     (case read1 valid str argv of
        (None, argv') \<Rightarrow> (cur, argv')
      | (Some v, argv') \<Rightarrow> (conv v, argv'))"

section \<open>Data\<close>

type_synonym srs = string

record 'd Bounds =
  xMin :: 'd
  yMin :: 'd
  xMax :: 'd
  yMax :: 'd

record 'd GeoExtent =
  extent_srs :: srs
  extent_bounds :: "'d Bounds"

record TileKey =
  key_level :: nat
  key_column :: nat
  key_row :: nat

text \<open>
  What \<open>makeTMS\<close> uses of the loaded \<open>MapNode\<close> and of its \<open>Map\<close>: the names of the image
  and elevation layers in map order, the profile and the spatial reference.
\<close>

record MapNode =
  imageLayers :: "string list"
  elevationLayers :: "string list"
  mapProfile :: string
  mapSRS :: srs

text \<open>A layer of the map: the image or elevation layer at an index.\<close>

datatype layer = ImageLayer nat | ElevationLayer nat

text \<open>
  Modelled from the spec: \<open>Map::getImageLayerAt\<close> and \<open>Map::getElevationLayerAt\<close> are not in
  \<open>osgearth_package.cpp\<close>. They take an \<open>int\<close>, and \<open>makeTMS\<close> tests the result against
  null; the spec calls that case "a requested image/elevation layer index not found in the
  map", so null is the answer at an index outside the layers of the map.
\<close>

definition getImageLayerAt :: "MapNode \<Rightarrow> int \<Rightarrow> layer option" where
  "getImageLayerAt m i =
     (if 0 \<le> i \<and> i < int (length (imageLayers m)) then Some (ImageLayer (nat i)) else None)"

definition getElevationLayerAt :: "MapNode \<Rightarrow> int \<Rightarrow> layer option" where
  "getElevationLayerAt m i =
     (if 0 \<le> i \<and> i < int (length (elevationLayers m)) then Some (ElevationLayer (nat i)) else None)"

definition layerName :: "MapNode \<Rightarrow> layer \<Rightarrow> string" where
  "layerName m l =
     (case l of ImageLayer i \<Rightarrow> imageLayers m ! i | ElevationLayer i \<Rightarrow> elevationLayers m ! i)"

text \<open>
  The visitor classes and the packager are declared outside \<open>osgearth_package.cpp\<close>, which
  only constructs them and calls their setters. A visitor is the class it was constructed as,
  with what \<open>makeTMS\<close> sets on it; \<open>None\<close> is a value left as the constructor made it.
\<close>

datatype visitor_class =
    TileVisitor
  | MultithreadedTileVisitor "32 word option"
  | MultiprocessTileVisitor "32 word option" "32 word option" string
  | TileKeyListVisitor "TileKey list"

record 'd visitor =
  v_class :: visitor_class
  v_progress :: bool
  v_minLevel :: "32 word option"
  v_maxLevel :: "32 word option"
  v_extents :: "'d GeoExtent list"

definition new_visitor :: "visitor_class \<Rightarrow> 'd visitor" where
  "new_visitor c =
     \<lparr>v_class = c, v_progress = False, v_minLevel = None, v_maxLevel = None, v_extents = []\<rparr>"

record 'd TMSPackager =
  p_visitor :: "'d visitor option"
  p_destination :: "string option"
  p_extension :: "string option"
  p_elevationPixelDepth :: "32 word option"
  p_writeOptions :: "string option"

definition new_packager :: "'d TMSPackager" where
  "new_packager =
     \<lparr>p_visitor = None, p_destination = None, p_extension = None,
      p_elevationPixelDepth = None, p_writeOptions = None\<rparr>"

text \<open>A layer of the output map: its name and the location and context of its TMS url.\<close>

datatype OutLayer =
    OutImageLayer string string string
  | OutElevationLayer string string string

text \<open>What a run does to the outside, in order.\<close>

datatype 'd event =
    Print string
  | PrintUsage
  | Warn string
  | Notice string
  | MakeDirectory string
  | Run layer "'d TMSPackager"
  | WriteXML layer
  | WriteNodeFile "OutLayer list" string

type_synonym 'd outcome = "int \<times> 'd event list"

text \<open>
  The collaborators of \<open>makeTMS\<close> that are not part of \<open>osgearth_package.cpp\<close>:
  the number tests and conversions of the argument parser, the map loader, the feature source
  behind an index shapefile (the extent of each feature the cursor yields: the feature's
  spatial reference and the bounds of its geometry), the reprojection of an extent, the
  string helpers, the file system and the task file reader.
\<close>

record 'd world =
  isNumber :: "string \<Rightarrow> bool"
  asUInt :: "string \<Rightarrow> 32 word"
  asInt :: "string \<Rightarrow> int"
  asDouble :: "string \<Rightarrow> 'd"
  MapNode_load :: "args \<Rightarrow> MapNode option"
  features :: "string \<Rightarrow> 'd GeoExtent list"
  transform :: "'d GeoExtent \<Rightarrow> srs \<Rightarrow> 'd GeoExtent"
  trim :: "string \<Rightarrow> string"
  toLower :: "string \<Rightarrow> string"
  endsWith :: "string \<Rightarrow> string \<Rightarrow> bool"
  fileExists_after_makeDirectory :: "string \<Rightarrow> bool"
  TaskList_load :: "string \<Rightarrow> string \<Rightarrow> TileKey list"
  concatPaths :: "string \<Rightarrow> string \<Rightarrow> string"
  getSimpleFileName :: "string \<Rightarrow> string"
  toLegalFileName :: "string \<Rightarrow> string"
  writeNodeFile :: "OutLayer list \<Rightarrow> string \<Rightarrow> bool"

section \<open>The program\<close>

text \<open>\<open>usage\<close> prints the message when there is one, then the usage text, and returns -1.\<close>

definition usage :: "string \<Rightarrow> 'd outcome" where
  "usage msg = (- 1, (if msg \<noteq> [] then [Print msg] else []) @ [PrintUsage])"

text \<open>
  \<open>findArgumentWithExtension\<close> scans every argument from position 0 and tests it against
  \<open>.earth\<close>; the parameter \<open>ext\<close> is not used by the source.
\<close>

fun findArgumentWithExtension :: "'d world \<Rightarrow> args \<Rightarrow> string \<Rightarrow> string" where
  "findArgumentWithExtension w [] ext = []"
| "findArgumentWithExtension w (arg # rest) ext =
     (if endsWith w (toLower w (trim w arg)) ''.earth'' then arg
      else findArgumentWithExtension w rest ext)"

text \<open>Numbers written to a stream: decimal digits.\<close>

function show_nat :: "nat \<Rightarrow> string" where
  "show_nat n =
     (if n < 10 then [''0123456789'' ! n]
      else show_nat (n div 10) @ [''0123456789'' ! (n mod 10)])"
  by pat_completeness auto
termination
  by (relation "measure id") auto

definition show_int :: "int \<Rightarrow> string" where
  "show_int i = (if i < 0 then ''-'' @ show_nat (nat (- i)) else show_nat (nat i))"

text \<open>The local variables of \<open>makeTMS\<close> that are read from the command line, as declared.\<close>

record 'd locals =
  minLevel :: "32 word"
  maxLevel :: "32 word"
  bounds :: "'d Bounds list"
  tileList :: string
  verbose :: bool
  batchSize :: "32 word"
  concurrency :: "32 word"
  writeXML :: bool
  extension :: string
  earthFile :: string
  rootFolder :: string
  overwrite :: bool
  outEarth :: string
  dbOptions :: string
  keepEmpties :: bool
  continueSingleColor :: bool
  elevationPixelDepth :: "32 word"
  imageLayerIndex :: int
  elevationLayerIndex :: int

definition locals0 :: "'d locals" where
  "locals0 =
     \<lparr>minLevel = 0, maxLevel = 5, bounds = [], tileList = [], verbose = False,
      batchSize = 0, concurrency = 0, writeXML = True, extension = [], earthFile = [],
      rootFolder = [], overwrite = False, outEarth = [], dbOptions = [],
      keepEmpties = False, continueSingleColor = False, elevationPixelDepth = 32,
      imageLayerIndex = - 1, elevationLayerIndex = - 1\<rparr>"


subsection \<open>Lines 113 to 145: levels, bounds, task file, verbosity, batch size, concurrency\<close>

definition push_bounds ::
  "'d world \<Rightarrow> string \<times> string \<times> string \<times> string \<Rightarrow> 'd Bounds list \<Rightarrow> 'd Bounds list" where
  "push_bounds w v bs =
     (case v of (x0, y0, x1, y1) \<Rightarrow>
        bs @ [\<lparr>xMin = asDouble w x0, yMin = asDouble w y0,
               xMax = asDouble w x1, yMax = asDouble w y1\<rparr>])"

definition read_traversal_options :: "'d world \<Rightarrow> args \<Rightarrow> 'd locals \<times> args" where
  "read_traversal_options w argv0 =
     (let l = locals0;
          (x, argv) = while_read1 (isNumber w) ''--min-level'' (\<lambda>v _. asUInt w v) (minLevel l) argv0;
          l = l\<lparr>minLevel := x\<rparr>;
          (x, argv) = while_read1 (isNumber w) ''--max-level'' (\<lambda>v _. asUInt w v) (maxLevel l) argv;
          l = l\<lparr>maxLevel := x\<rparr>;
          (x, argv) = while_read4 (isNumber w) ''--bounds'' (push_bounds w) (bounds l) argv;
          l = l\<lparr>bounds := x\<rparr>;
          (x, argv) = while_read1 (\<lambda>_. True) ''--tiles'' (\<lambda>v _. v) (tileList l) argv;
          l = l\<lparr>tileList := x\<rparr>;
          (x, argv) = read0 ''--verbose'' argv;
          l = l\<lparr>verbose := x\<rparr>;
          (x, argv) = read_uint (isNumber w) (asUInt w) ''--batchsize'' (batchSize l) argv;
          l = l\<lparr>batchSize := x\<rparr>;
          (x, argv) = read_uint (isNumber w) (asUInt w) ''-c'' (concurrency l) argv;
          l = l\<lparr>concurrency := x\<rparr>;
          (x, argv) = read_uint (isNumber w) (asUInt w) ''--concurrency'' (concurrency l) argv;
          l = l\<lparr>concurrency := x\<rparr>
      in (l, argv))"

subsection \<open>Lines 153 to 217: index shapefiles and output options\<close>

text \<open>
  The cursor loop of an index shapefile: the extent of each feature is reprojected into the
  spatial reference of the map and its bounds are pushed.
\<close>

fun push_features ::
  "'d world \<Rightarrow> MapNode \<Rightarrow> 'd GeoExtent list \<Rightarrow> 'd Bounds list \<Rightarrow> 'd Bounds list" where
  "push_features w m [] bs = bs"
| "push_features w m (ext # cursor) bs =
     push_features w m cursor (bs @ [extent_bounds (transform w ext (mapSRS m))])"

text \<open>The loop that erases every double quote of the database options.\<close>

fun erase_quotes :: "string \<Rightarrow> string" where
  "erase_quotes [] = []"
| "erase_quotes (c # cs) = (if c = CHR 0x22 then erase_quotes cs else c # erase_quotes cs)"

definition read_output_options ::
  "'d world \<Rightarrow> MapNode \<Rightarrow> 'd locals \<Rightarrow> args \<Rightarrow> 'd locals \<times> args" where
  "read_output_options w m l0 argv0 =
     (let (x, argv) = while_read1 (\<lambda>_. True) ''--index''
                        (\<lambda>index bs. push_features w m (features w index) bs) (bounds l0) argv0;
          l = l0\<lparr>bounds := x\<rparr>;
          (ok, x, argv) = read_string ''--ext'' (extension l) argv;
          l = l\<lparr>extension := x\<rparr>;
          l = l\<lparr>earthFile := findArgumentWithExtension w argv ''.earth''\<rparr>;
          (ok, x, argv) = read_string ''--out'' (rootFolder l) argv;
          l = l\<lparr>rootFolder := (if \<not> ok then earthFile l @ ''.tms_repo'' else x)\<rparr>;
          (x, argv) = read0 ''--overwrite'' argv;
          l = l\<lparr>overwrite := (if x then True else overwrite l)\<rparr>;
          (ok, x, argv) = read_string ''--out-earth'' (outEarth l) argv;
          l = l\<lparr>outEarth := x\<rparr>;
          (ok, x, argv) = read_string ''--db-options'' (dbOptions l) argv;
          l = l\<lparr>dbOptions := erase_quotes x\<rparr>;
          (x, argv) = read0 ''--keep-empties'' argv;
          l = l\<lparr>keepEmpties := x\<rparr>;
          (x, argv) = read0 ''--continue-single-color'' argv;
          l = l\<lparr>continueSingleColor := x\<rparr>;
          (x, argv) = read_uint (isNumber w) (asUInt w) ''--elevation-pixel-depth''
                        (elevationPixelDepth l) argv;
          l = l\<lparr>elevationPixelDepth := x\<rparr>
      in (l, argv))"

subsection \<open>Lines 224 to 228: the layer indices\<close>

definition read_layer_indices :: "'d world \<Rightarrow> 'd locals \<Rightarrow> args \<Rightarrow> 'd locals \<times> args" where
  "read_layer_indices w l0 argv0 =
     (let (x, argv) = read_int (isNumber w) (asInt w) ''--image'' (imageLayerIndex l0) argv0;
          l = l0\<lparr>imageLayerIndex := x\<rparr>;
          (x, argv) = read_int (isNumber w) (asInt w) ''--elevation'' (elevationLayerIndex l) argv;
          l = l\<lparr>elevationLayerIndex := x\<rparr>
      in (l, argv))"

subsection \<open>Lines 233 to 334: the visitor\<close>

text \<open>The earth file of the worker's command: the last argument from position 1 that is no option.\<close>

fun last_non_option :: "string list \<Rightarrow> string \<Rightarrow> string" where
  "last_non_option [] e = e"
| "last_non_option (a # rest) e = last_non_option rest (if \<not> isOption a then a else e)"

text \<open>
  The base command of the workers. Line 296 compares the stream with the text of the
  overwrite flag (\<open>baseCommand < " --overwrite "\<close>) and drops the result, so nothing is
  written for \<open>overwrite\<close>. After \<open>--keep-empties\<close> the source writes \<open>std::endl\<close>, a line feed.
\<close>

definition baseCommand_of :: "'d locals \<Rightarrow> string \<Rightarrow> string" where
  "baseCommand_of l earthFile' =
     ''osgearth_package2 --tms ''
     @ (if extension l \<noteq> [] then '' --extension '' @ extension l @ '' '' else [])
     @ (if overwrite l then [] else [])
     @ (if dbOptions l \<noteq> [] then '' --db-options '' @ dbOptions l @ '' '' else [])
     @ (if keepEmpties l then '' --keep-empties '' @ [CHR 0x0A] else [])
     @ (if continueSingleColor l then '' --continue-single-color '' else [])
     @ '' --elevation-pixel-depth '' @ show_nat (unat (elevationPixelDepth l)) @ '' ''
     @ (if imageLayerIndex l \<ge> 0 then '' --image '' @ show_int (imageLayerIndex l)
        else if elevationLayerIndex l \<ge> 0
             then '' --elevation '' @ show_int (elevationLayerIndex l)
             else [])
     @ '' '' @ earthFile'"

definition create_visitor ::
  "'d world \<Rightarrow> MapNode \<Rightarrow> 'd locals \<Rightarrow> args \<Rightarrow> 'd visitor \<times> 'd locals \<times> args" where
  "create_visitor w m l argv =
     (if tileList l \<noteq> [] then
        (new_visitor (TileKeyListVisitor (TaskList_load w (mapProfile m) (tileList l))),
         l\<lparr>writeXML := False\<rparr>, argv)
      else
        (case read0 ''--mt'' argv of
           (True, argv1) \<Rightarrow>
             (new_visitor (MultithreadedTileVisitor
                (if concurrency l > 0 then Some (concurrency l) else None)), l, argv1)
         | (False, argv1) \<Rightarrow>
             (case read0 ''--mp'' argv1 of
                (True, argv2) \<Rightarrow>
                  (new_visitor (MultiprocessTileVisitor
                     (if concurrency l > 0 then Some (concurrency l) else None)
                     (if batchSize l > 0 then Some (batchSize l) else None)
                     (baseCommand_of l (last_non_option (tl argv2) []))), l, argv2)
              | (False, argv2) \<Rightarrow> (new_visitor TileVisitor, l, argv2))))"


subsection \<open>Lines 336 to 379: the visitor's settings and the packager\<close>

fun add_extents :: "MapNode \<Rightarrow> 'd Bounds list \<Rightarrow> 'd visitor \<Rightarrow> 'd visitor" where
  "add_extents m [] v = v"
| "add_extents m (b # bs) v =
     add_extents m bs (v\<lparr>v_extents := v_extents v @ [\<lparr>extent_srs = mapSRS m, extent_bounds = b\<rparr>]\<rparr>)"

definition configure_visitor :: "MapNode \<Rightarrow> 'd locals \<Rightarrow> 'd visitor \<Rightarrow> 'd visitor" where
  "configure_visitor m l v0 =
     (let v = (if verbose l then v0\<lparr>v_progress := True\<rparr> else v0);
          v = v\<lparr>v_minLevel := Some (minLevel l)\<rparr>;
          v = v\<lparr>v_maxLevel := Some (maxLevel l)\<rparr>
      in add_extents m (bounds l) v)"

definition setup_packager :: "'d locals \<Rightarrow> 'd visitor \<Rightarrow> 'd TMSPackager" where
  "setup_packager l v =
     new_packager\<lparr>p_visitor := Some v, p_destination := Some (rootFolder l),
                  p_elevationPixelDepth := Some (elevationPixelDepth l),
                  p_writeOptions := Some (dbOptions l)\<rparr>"

text \<open>
  \<open>dynamic_cast<MultiprocessTileVisitor*>\<close> and \<open>getBaseCommand\<close>: the base command when the
  visitor is the multiprocess one, nothing (the null pointer) otherwise.
\<close>

definition mp_baseCommand :: "'d visitor \<Rightarrow> string option" where
  "mp_baseCommand v =
     (case v_class v of MultiprocessTileVisitor np bs c \<Rightarrow> Some c | _ \<Rightarrow> None)"

text \<open>
  \<open>mp->setBaseCommand\<close>: the packager holds the very visitor \<open>mp\<close> points to, so the
  packager's visitor changes.
\<close>

definition setBaseCommand :: "string \<Rightarrow> 'd TMSPackager \<Rightarrow> 'd TMSPackager" where
  "setBaseCommand c pk =
     (case p_visitor pk of
        None \<Rightarrow> pk
      | Some v \<Rightarrow>
          (case v_class v of
             MultiprocessTileVisitor np bs old \<Rightarrow>
               pk\<lparr>p_visitor := Some (v\<lparr>v_class := MultiprocessTileVisitor np bs c\<rparr>)\<rparr>
           | _ \<Rightarrow> pk))"

subsection \<open>Lines 382 to 511: packaging\<close>

record 'd pstate =
  packager :: "'d TMSPackager"
  outMap :: "OutLayer list option"
  trace :: "'d event list"

text \<open>
  One round of the loop over the image layers and of the loop over the elevation layers.
  The notice of completion is written without the elapsed time.
\<close>

definition package_layer ::
  "'d world \<Rightarrow> MapNode \<Rightarrow> 'd locals \<Rightarrow> string option \<Rightarrow> string \<Rightarrow> layer \<Rightarrow> 'd pstate \<Rightarrow> 'd pstate" where
  "package_layer w m l mp outEarthFile lay st =
     (let pk = (case mp of
                  None \<Rightarrow> packager st
                | Some baseCommand \<Rightarrow>
                    setBaseCommand
                      (baseCommand @
                       (case lay of ImageLayer i \<Rightarrow> '' --image '' @ show_nat i
                                  | ElevationLayer i \<Rightarrow> '' --elevation '' @ show_nat i))
                      (packager st));
          name = layerName m lay;
          tr = trace st @ [Notice (''Packaging '' @ name), Run lay pk]
               @ (if verbose l then [Notice (''Completed seeding layer '' @ name)] else [])
               @ (if writeXML l then [WriteXML lay] else []);
          url = concatPaths w (toLegalFileName w name) ''tms.xml'';
          om = (case outMap st of
                  None \<Rightarrow> None
                | Some ls \<Rightarrow>
                    Some (ls @ [case lay of
                                  ImageLayer i \<Rightarrow> OutImageLayer name url outEarthFile
                                | ElevationLayer i \<Rightarrow> OutElevationLayer name url outEarthFile]))
      in \<lparr>packager = pk, outMap = om, trace = tr\<rparr>)"

fun package_image_layers ::
  "'d world \<Rightarrow> MapNode \<Rightarrow> 'd locals \<Rightarrow> string option \<Rightarrow> string \<Rightarrow> nat list \<Rightarrow> 'd pstate \<Rightarrow> 'd pstate" where
  "package_image_layers w m l mp outEarthFile [] st = st"
| "package_image_layers w m l mp outEarthFile (i # rest) st =
     package_image_layers w m l mp outEarthFile rest
       (package_layer w m l mp outEarthFile (ImageLayer i) st)"

fun package_elevation_layers ::
  "'d world \<Rightarrow> MapNode \<Rightarrow> 'd locals \<Rightarrow> string option \<Rightarrow> string \<Rightarrow> nat list \<Rightarrow> 'd pstate \<Rightarrow> 'd pstate" where
  "package_elevation_layers w m l mp outEarthFile [] st = st"
| "package_elevation_layers w m l mp outEarthFile (i # rest) st =
     package_elevation_layers w m l mp outEarthFile rest
       (package_layer w m l mp outEarthFile (ElevationLayer i) st)"

text \<open>
  The three ways of packaging: the image layer at \<open>--image\<close>, else the elevation layer at
  \<open>--elevation\<close>, else every image layer and then every elevation layer. \<open>Inl\<close> is the early
  return with exit code 1.
\<close>

definition package_layers ::
  "'d world \<Rightarrow> MapNode \<Rightarrow> 'd locals \<Rightarrow> string option \<Rightarrow> string \<Rightarrow> 'd pstate \<Rightarrow> 'd outcome + 'd pstate" where
  "package_layers w m l mp outEarthFile st =
     (if imageLayerIndex l \<ge> 0 then
        (case getImageLayerAt m (imageLayerIndex l) of
           Some lay \<Rightarrow>
             Inr (st\<lparr>trace := trace st @ [Run lay (packager st)]
                                @ (if writeXML l then [WriteXML lay] else [])\<rparr>)
         | None \<Rightarrow>
             Inl (1, trace st @ [Print (''Failed to find an image layer at index ''
                                        @ show_int (imageLayerIndex l))]))
      else if elevationLayerIndex l \<ge> 0 then
        (let pk = (packager st)\<lparr>p_extension := Some ''tif''\<rparr> in
         case getElevationLayerAt m (elevationLayerIndex l) of
           Some lay \<Rightarrow>
             Inr (st\<lparr>packager := pk,
                     trace := trace st @ [Run lay pk]
                                @ (if writeXML l then [WriteXML lay] else [])\<rparr>)
         | None \<Rightarrow>
             Inl (1, trace st @ [Print (''Failed to find an elevation layer at index ''
                                        @ show_int (elevationLayerIndex l))]))
      else
        (let st1 = package_image_layers w m l mp outEarthFile [0..<length (imageLayers m)] st;
             st2 = st1\<lparr>packager := (packager st1)\<lparr>p_extension := Some ''tif''\<rparr>\<rparr>
         in Inr (package_elevation_layers w m l mp outEarthFile
                   [0..<length (elevationLayers m)] st2)))"

subsection \<open>Lines 513 to 529: the output earth file\<close>

definition write_earth_file ::
  "'d world \<Rightarrow> 'd locals \<Rightarrow> string \<Rightarrow> OutLayer list option \<Rightarrow> 'd event list" where
  "write_earth_file w l outEarthFile om =
     (case om of
        None \<Rightarrow> []
      | Some ls \<Rightarrow>
          WriteNodeFile ls outEarthFile #
          (if \<not> writeNodeFile w ls outEarthFile
           then [Warn (''[osgearth_package] Error writing earth file to '' @ [CHR 0x22]
                       @ outEarthFile @ [CHR 0x22])]
           else if verbose l
           then [Notice (''[osgearth_package] Wrote earth file to '' @ [CHR 0x22]
                         @ outEarthFile @ [CHR 0x22])]
           else []))"

subsection \<open>\<open>makeTMS\<close> and \<open>main\<close>\<close>

text \<open>
  Lines 113 to 217: the options read before the output folder is made, with the map they are
  read for. \<open>None\<close> is the early return of line 150, when no map could be loaded.
\<close>

definition read_options :: "'d world \<Rightarrow> args \<Rightarrow> (MapNode \<times> 'd locals \<times> args) option" where
  "read_options w argv0 =
     (let (l1, argv1) = read_traversal_options w argv0 in
      (case MapNode_load w argv1 of
         None \<Rightarrow> None
       | Some m \<Rightarrow> Some (m, read_output_options w m l1 argv1)))"

text \<open>Lines 224 to 511, once the output folder exists.\<close>

definition package ::
  "'d world \<Rightarrow> MapNode \<Rightarrow> 'd locals \<Rightarrow> args \<Rightarrow> 'd outcome" where
  "package w m l2 argv2 =
     (let (l3, argv3) = read_layer_indices w l2 argv2;
          (visitor0, l, argv4) = create_visitor w m l3 argv3;
          visitor = configure_visitor m l visitor0;
          outEarthFile = concatPaths w (rootFolder l) (getSimpleFileName w (outEarth l));
          st = \<lparr>packager = setup_packager l visitor,
                outMap = (if outEarth l \<noteq> [] then Some [] else None),
                trace = [MakeDirectory (rootFolder l)]\<rparr>
      in (case package_layers w m l (mp_baseCommand visitor) outEarthFile st of
            Inl out \<Rightarrow> out
          | Inr st' \<Rightarrow> (0, trace st' @ write_earth_file w l outEarthFile (outMap st'))))"

definition makeTMS :: "'d world \<Rightarrow> args \<Rightarrow> 'd outcome" where
  "makeTMS w argv0 =
     (case read_options w argv0 of
        None \<Rightarrow> usage ''Failed to load a valid .earth file''
      | Some (m, l2, argv2) \<Rightarrow>
          if \<not> fileExists_after_makeDirectory w (rootFolder l2) then
            (let (code, es) = usage ''Failed to create root output folder''
             in (code, MakeDirectory (rootFolder l2) # es))
          else package w m l2 argv2)"

definition main :: "'d world \<Rightarrow> args \<Rightarrow> 'd outcome" where
  "main w argv =
     (case read0 ''--tms'' argv of
        (True, argv') \<Rightarrow> makeTMS w argv'
      | (False, argv') \<Rightarrow> usage [])"

text \<open>
  The map and the options of an invocation, as \<open>main\<close> and \<open>makeTMS\<close> get them: nothing when
  \<open>--tms\<close> is missing or no map could be loaded.
\<close>

definition options_of :: "'d world \<Rightarrow> args \<Rightarrow> (MapNode \<times> 'd locals \<times> args) option" where
  "options_of w argv =
     (case read0 ''--tms'' argv of
        (True, argv') \<Rightarrow> read_options w argv'
      | (False, argv') \<Rightarrow> None)"

section \<open>Well-formed command lines\<close>

text \<open>
  A command line, piece by piece: a flag, an option with one parameter, an option with
  four parameters, or any other argument. \<open>render\<close> gives the arguments after the program name.
\<close>

datatype item =
    Flag string
  | Opt string string
  | Opt4 string string string string string
  | Arg string

fun toks :: "item \<Rightarrow> string list" where
  "toks (Flag n) = [n]"
| "toks (Opt n v) = [n, v]"
| "toks (Opt4 n a b c d) = [n, a, b, c, d]"
| "toks (Arg s) = [s]"

definition render :: "item list \<Rightarrow> string list" where
  "render items = concat (map toks items)"

fun heads :: "string \<Rightarrow> item \<Rightarrow> bool" where
  "heads g (Flag n) = (n = g)"
| "heads g (Opt n v) = (n = g)"
| "heads g (Opt4 n a b c d) = (n = g)"
| "heads g (Arg s) = False"

fun params :: "item \<Rightarrow> string list" where
  "params (Flag n) = []"
| "params (Opt n v) = [v]"
| "params (Opt4 n a b c d) = [a, b, c, d]"
| "params (Arg s) = [s]"

text \<open>The parameters given to an option, in the order of the command line.\<close>

fun vals :: "string \<Rightarrow> item list \<Rightarrow> string list" where
  "vals g [] = []"
| "vals g (Opt n v # its) = (if n = g then v # vals g its else vals g its)"
| "vals g (it # its) = vals g its"

fun quads :: "string \<Rightarrow> item list \<Rightarrow> (string \<times> string \<times> string \<times> string) list" where
  "quads g [] = []"
| "quads g (Opt4 n a b c d # its) = (if n = g then (a, b, c, d) # quads g its else quads g its)"
| "quads g (it # its) = quads g its"

text \<open>The first occurrence of an option removed, and all of its occurrences removed.\<close>

fun del1 :: "string \<Rightarrow> item list \<Rightarrow> item list" where
  "del1 g [] = []"
| "del1 g (it # its) = (if heads g it then its else it # del1 g its)"

definition delall :: "string \<Rightarrow> item list \<Rightarrow> item list" where
  "delall g items = filter (\<lambda>it. \<not> heads g it) items"

text \<open>
  The options \<open>makeTMS\<close> and \<open>main\<close> read. A command line is well formed when each option
  stands with the parameters of its kind, numbers where numbers are read, and when no
  parameter and no other argument is itself the name of an option.
\<close>

definition flag_names :: "string list" where
  "flag_names = [''--tms'', ''--verbose'', ''--overwrite'', ''--keep-empties'',
                 ''--continue-single-color'', ''--mt'', ''--mp'']"

definition string_names :: "string list" where
  "string_names = [''--tiles'', ''--index'', ''--ext'', ''--out'', ''--out-earth'',
                   ''--db-options'']"

definition number_names :: "string list" where
  "number_names = [''--min-level'', ''--max-level'', ''--batchsize'', ''-c'', ''--concurrency'',
                   ''--elevation-pixel-depth'', ''--image'', ''--elevation'']"

definition option_names :: "string list" where
  "option_names = flag_names @ string_names @ number_names @ [''--bounds'']"

fun wf_item :: "'d world \<Rightarrow> item \<Rightarrow> bool" where
  "wf_item w (Flag n) = (n \<in> set flag_names)"
| "wf_item w (Opt n v) =
     ((n \<in> set string_names \<or> (n \<in> set number_names \<and> isNumber w v)) \<and> v \<notin> set option_names)"
| "wf_item w (Opt4 n a b c d) =
     (n = ''--bounds'' \<and> isNumber w a \<and> isNumber w b \<and> isNumber w c \<and> isNumber w d \<and>
      a \<notin> set option_names \<and> b \<notin> set option_names \<and> c \<notin> set option_names \<and>
      d \<notin> set option_names)"
| "wf_item w (Arg s) = (s \<notin> set option_names)"

definition wf_cmdline :: "'d world \<Rightarrow> item list \<Rightarrow> bool" where
  "wf_cmdline w items = list_all (wf_item w) items"

section \<open>Auxiliary definitions\<close>

text \<open>
  For the proofs: the option \<open>g\<close> is no parameter and no plain argument of the command line,
  and every piece that starts with \<open>g\<close> has the parameters \<open>g\<close> is read with.
\<close>

definition clean :: "string \<Rightarrow> item list \<Rightarrow> bool" where
  "clean g items = (\<forall>it \<in> set items. g \<notin> set (params it))"

definition typed0 :: "string \<Rightarrow> item list \<Rightarrow> bool" where
  "typed0 g items = (\<forall>it \<in> set items. heads g it \<longrightarrow> it = Flag g)"

definition typed1 :: "(string \<Rightarrow> bool) \<Rightarrow> string \<Rightarrow> item list \<Rightarrow> bool" where
  "typed1 valid g items = (\<forall>it \<in> set items. heads g it \<longrightarrow> (\<exists>v. it = Opt g v \<and> valid v))"

definition typed4 :: "(string \<Rightarrow> bool) \<Rightarrow> string \<Rightarrow> item list \<Rightarrow> bool" where
  "typed4 valid g items = (\<forall>it \<in> set items. heads g it \<longrightarrow>
      (\<exists>a b c d. it = Opt4 g a b c d \<and> valid a \<and> valid b \<and> valid c \<and> valid d))"

text \<open>What is left of the command line at line 148, where the map is loaded.\<close>

definition rest1 :: "item list \<Rightarrow> item list" where
  "rest1 items =
     del1 ''--concurrency'' (del1 ''-c'' (del1 ''--batchsize'' (del1 ''--verbose''
       (delall ''--tiles'' (delall ''--bounds'' (delall ''--max-level''
         (delall ''--min-level'' items)))))))"

text \<open>The parameter of the first occurrence of an option, read as a number.\<close>

definition first_uint :: "'d world \<Rightarrow> string \<Rightarrow> 32 word \<Rightarrow> item list \<Rightarrow> 32 word" where
  "first_uint w g d items = (case vals g items of [] \<Rightarrow> d | v # _ \<Rightarrow> asUInt w v)"

text \<open>
  For the proofs: the parts of one round of the loop over the layers, named. \<open>with_cmd\<close> is the
  packager after lines 424 to 429 (or 471 to 476), \<open>layer_events\<close> the events of the round,
  \<open>out_layer\<close> the layer added to the output map.
\<close>

definition layer_suffix :: "layer \<Rightarrow> string" where
  "layer_suffix lay =
     (case lay of ImageLayer i \<Rightarrow> '' --image '' @ show_nat i
                | ElevationLayer i \<Rightarrow> '' --elevation '' @ show_nat i)"

definition with_cmd :: "string option \<Rightarrow> layer \<Rightarrow> 'd TMSPackager \<Rightarrow> 'd TMSPackager" where
  "with_cmd mp lay pk =
     (case mp of None \<Rightarrow> pk
      | Some baseCommand \<Rightarrow> setBaseCommand (baseCommand @ layer_suffix lay) pk)"

definition layer_events :: "MapNode \<Rightarrow> 'd locals \<Rightarrow> layer \<Rightarrow> 'd TMSPackager \<Rightarrow> 'd event list" where
  "layer_events m l lay pk =
     [Notice (''Packaging '' @ layerName m lay), Run lay pk]
     @ (if verbose l then [Notice (''Completed seeding layer '' @ layerName m lay)] else [])
     @ (if writeXML l then [WriteXML lay] else [])"

definition out_layer :: "'d world \<Rightarrow> MapNode \<Rightarrow> string \<Rightarrow> layer \<Rightarrow> OutLayer" where
  "out_layer w m outEarthFile lay =
     (case lay of
        ImageLayer i \<Rightarrow>
          OutImageLayer (layerName m lay)
            (concatPaths w (toLegalFileName w (layerName m lay)) ''tms.xml'') outEarthFile
      | ElevationLayer i \<Rightarrow>
          OutElevationLayer (layerName m lay)
            (concatPaths w (toLegalFileName w (layerName m lay)) ''tms.xml'') outEarthFile)"

text \<open>
  What the packager of every run shares: destination, pixel depth and write options, and a
  visitor with the levels, the extents and the progress callback of the command line, which is
  the key-list visitor of the task file when one was given.
\<close>

definition settled :: "'d world \<Rightarrow> MapNode \<Rightarrow> 'd locals \<Rightarrow> 'd TMSPackager \<Rightarrow> bool" where
  "settled w m l pk =
     (p_destination pk = Some (rootFolder l) \<and>
      p_elevationPixelDepth pk = Some (elevationPixelDepth l) \<and>
      p_writeOptions pk = Some (dbOptions l) \<and>
      (\<exists>v. p_visitor pk = Some v \<and>
           v_progress v = verbose l \<and>
           v_minLevel v = Some (minLevel l) \<and>
           v_maxLevel v = Some (maxLevel l) \<and>
           v_extents v = map (\<lambda>b. \<lparr>extent_srs = mapSRS m, extent_bounds = b\<rparr>) (bounds l) \<and>
           (tileList l \<noteq> [] \<longrightarrow>
              v_class v = TileKeyListVisitor (TaskList_load w (mapProfile m) (tileList l)))))"

text \<open>A read only removes arguments, and never the program name.\<close>

definition shrinks :: "args \<Rightarrow> args \<Rightarrow> bool" where
  "shrinks argv' argv \<longleftrightarrow> set (tl argv') \<subseteq> set (tl argv) \<and> set argv' \<subseteq> set argv"

text \<open>
  The runs on layers and the manifests written, picked out of the events of a run in their
  order, and the layers an invocation packages.
\<close>

datatype step = Packaged layer | Manifest layer

fun manifest_log :: "'d event list \<Rightarrow> step list" where
  "manifest_log [] = []"
| "manifest_log (Run lay pk # es) = Packaged lay # manifest_log es"
| "manifest_log (WriteXML lay # es) = Manifest lay # manifest_log es"
| "manifest_log (e # es) = manifest_log es"

definition packaged_layers :: "MapNode \<Rightarrow> 'd locals \<Rightarrow> layer list" where
  "packaged_layers m l =
     (if imageLayerIndex l \<ge> 0 then
        (case getImageLayerAt m (imageLayerIndex l) of Some lay \<Rightarrow> [lay] | None \<Rightarrow> [])
      else if elevationLayerIndex l \<ge> 0 then
        (case getElevationLayerAt m (elevationLayerIndex l) of Some lay \<Rightarrow> [lay] | None \<Rightarrow> [])
      else map ImageLayer [0..<length (imageLayers m)]
           @ map ElevationLayer [0..<length (elevationLayers m)])"

text \<open>The warning of line 521.\<close>

definition earth_file_warning :: "string \<Rightarrow> string" where
  "earth_file_warning f =
     ''[osgearth_package] Error writing earth file to '' @ [CHR 0x22] @ f @ [CHR 0x22]"

text \<open>What is left of the command line at line 219, where the output folder is made.\<close>

definition rest2 :: "item list \<Rightarrow> item list" where
  "rest2 items =
     del1 ''--elevation-pixel-depth'' (del1 ''--continue-single-color'' (del1 ''--keep-empties''
       (del1 ''--db-options'' (del1 ''--out-earth'' (del1 ''--overwrite'' (del1 ''--out''
         (del1 ''--ext'' (delall ''--index'' items))))))))"

text \<open>
  The parameter of the first occurrence of an option, as text and read as an integer, with
  the value when the option is not given.
\<close>

definition first_string :: "string \<Rightarrow> string \<Rightarrow> item list \<Rightarrow> string" where
  "first_string g d items = (case vals g items of [] \<Rightarrow> d | v # _ \<Rightarrow> v)"

definition first_int :: "'d world \<Rightarrow> string \<Rightarrow> int \<Rightarrow> item list \<Rightarrow> int" where
  "first_int w g d items = (case vals g items of [] \<Rightarrow> d | v # _ \<Rightarrow> asInt w v)"

text \<open>
  The extents of a command line in the words of the spec: one for each occurrence of
  \<open>--bounds\<close>, then, for each \<open>--index\<close>, one for each feature of that source, the bounds
  of its geometry reprojected into the spatial reference of the map.
\<close>

definition spec_extents :: "'d world \<Rightarrow> MapNode \<Rightarrow> item list \<Rightarrow> 'd GeoExtent list" where
  "spec_extents w m items =
     map (\<lambda>(x0, y0, x1, y1).
            \<lparr>extent_srs = mapSRS m,
             extent_bounds = \<lparr>xMin = asDouble w x0, yMin = asDouble w y0,
                              xMax = asDouble w x1, yMax = asDouble w y1\<rparr>\<rparr>)
         (quads ''--bounds'' items)
     @ concat (map (\<lambda>index.
                      map (\<lambda>feature.
                             \<lparr>extent_srs = mapSRS m,
                              extent_bounds = extent_bounds (transform w feature (mapSRS m))\<rparr>)
                          (features w index))
                   (vals ''--index'' items))"

text \<open>The base commands of the multiprocess visitors of the runs of a trace.\<close>

fun base_commands :: "'d event list \<Rightarrow> string list" where
  "base_commands [] = []"
| "base_commands (Run lay pk # es) =
     (case p_visitor pk of
        None \<Rightarrow> base_commands es
      | Some v \<Rightarrow>
          (case v_class v of
             MultiprocessTileVisitor np bs c \<Rightarrow> c # base_commands es
           | _ \<Rightarrow> base_commands es))"
| "base_commands (e # es) = base_commands es"

text \<open>
  What is left of the command line at line 181, where the earth file is looked for: every
  \<open>--min-level\<close>, \<open>--max-level\<close>, \<open>--bounds\<close>, \<open>--tiles\<close> and \<open>--index\<close> is gone with its
  parameters, and so is the first \<open>--tms\<close>, \<open>--verbose\<close>, \<open>--batchsize\<close>, \<open>-c\<close>,
  \<open>--concurrency\<close> and \<open>--ext\<close>. Every other option is still there with its parameters,
  \<open>--out-earth\<close> and its file among them.
\<close>

definition left_at_earth_file :: "item list \<Rightarrow> item list" where
  "left_at_earth_file items = del1 ''--ext'' (delall ''--index'' (rest1 (del1 ''--tms'' items)))"

text \<open>\<open>endsWith(toLower(trim(arg)), ".earth")\<close>, the test of line 98.\<close>

definition ends_with_earth :: "'d world \<Rightarrow> string \<Rightarrow> bool" where
  "ends_with_earth w arg = endsWith w (toLower w (trim w arg)) ''.earth''"

section \<open>A sample world\<close>

text \<open>
  For running the program on concrete command lines: a map with one image layer and one
  elevation layer, numbers in decimal digits, a loader that finds the map when \<open>map.earth\<close>
  is among the arguments, one index shapefile with one feature, one task file with two keys,
  a folder that cannot be made, and an output earth file that cannot be written.
\<close>

definition sample_map :: MapNode where
  "sample_map = \<lparr>imageLayers = [''sat''], elevationLayers = [''dem''],
                  mapProfile = ''geodetic'', mapSRS = ''wgs84''\<rparr>"

fun decimal :: "string \<Rightarrow> nat \<Rightarrow> nat" where
  "decimal [] acc = acc"
| "decimal (c # cs) acc = decimal cs (10 * acc + (of_char c - 48))"

definition sample_world :: "int world" where
  "sample_world =
     \<lparr>isNumber = (\<lambda>s. s \<noteq> [] \<and> list_all (\<lambda>c. c \<in> set ''0123456789'') s),
      asUInt = (\<lambda>s. of_nat (decimal s 0)),
      asInt = (\<lambda>s. int (decimal s 0)),
      asDouble = (\<lambda>s. int (decimal s 0)),
      MapNode_load = (\<lambda>a. if ''map.earth'' \<in> set (tl a) then Some sample_map else None),
      features = (\<lambda>s. if s = ''index.shp''
                        then [\<lparr>extent_srs = ''utm'', extent_bounds = \<lparr>xMin = 5, yMin = 6, xMax = 7, yMax = 8\<rparr>\<rparr>]
                        else []),
      transform = (\<lambda>e s. e\<lparr>extent_srs := s\<rparr>),
      trim = (\<lambda>s. s),
      toLower = (\<lambda>s. s),
      endsWith = (\<lambda>s p. length p \<le> length s \<and> drop (length s - length p) s = p),
      fileExists_after_makeDirectory = (\<lambda>p. p \<noteq> ''/forbidden''),
      TaskList_load = (\<lambda>p f. if f = ''batch.txt''
                             then [\<lparr>key_level = 1, key_column = 0, key_row = 0\<rparr>,
                                   \<lparr>key_level = 1, key_column = 1, key_row = 0\<rparr>]
                             else []),
      concatPaths = (\<lambda>a b. a @ ''/'' @ b),
      getSimpleFileName = (\<lambda>s. s),
      toLegalFileName = (\<lambda>s. s),
      writeNodeFile = (\<lambda>ls f. False)\<rparr>"

section \<open>Reading a well-formed command line\<close>

declare while_read1.simps [simp del] while_read4.simps [simp del] show_nat.simps [simp del]

lemma find_from_notin: "g \<notin> set xs \<Longrightarrow> find_from g xs p = None"
  by (induction xs arbitrary: p) auto

lemma find_from_first: "g \<notin> set pre \<Longrightarrow> find_from g (pre @ g # post) p = Some (p + length pre)"
  by (induction pre arbitrary: p) auto

lemma read0_absent: "g \<notin> set xs \<Longrightarrow> read0 g (a # xs) = (False, a # xs)"
  by (simp add: read0_def args_find_def find_from_notin)

lemma read0_split: "g \<notin> set pre \<Longrightarrow> read0 g (a # pre @ g # post) = (True, a # pre @ post)"
  by (simp add: read0_def args_find_def find_from_first args_remove_def)

lemma read1_absent: "g \<notin> set xs \<Longrightarrow> read1 valid g (a # xs) = (None, a # xs)"
  by (simp add: read1_def args_find_def find_from_notin)

lemma read1_split:
  "g \<notin> set pre \<Longrightarrow> valid v \<Longrightarrow> read1 valid g (a # pre @ g # v # post) = (Some v, a # pre @ post)"
  by (simp add: read1_def args_find_def find_from_first args_remove_def nth_append)

lemma drop_past_prefix: "drop (Suc n + length pre) (a # pre @ xs) = drop n xs"
  by simp

lemma read4_absent: "g \<notin> set xs \<Longrightarrow> read4 valid g (a # xs) = (None, a # xs)"
  by (simp add: read4_def args_find_def find_from_notin)

lemma read4_split:
  assumes "g \<notin> set pre" "valid v1" "valid v2" "valid v3" "valid v4"
  shows "read4 valid g (a # pre @ g # v1 # v2 # v3 # v4 # post)
     = (Some (v1, v2, v3, v4), a # pre @ post)"
proof -
  have "drop (6 + length pre) (a # pre @ g # v1 # v2 # v3 # v4 # post) = post"
    using drop_past_prefix [of 5 pre a "g # v1 # v2 # v3 # v4 # post"] by simp
  with assms show ?thesis
    by (simp add: read4_def args_find_def find_from_first args_remove_def nth_append)
qed

lemma render_Nil [simp]: "render [] = []"
  by (simp add: render_def)

lemma render_Cons [simp]: "render (it # its) = toks it @ render its"
  by (simp add: render_def)

lemma render_append [simp]: "render (xs @ ys) = render xs @ render ys"
  by (simp add: render_def)

lemma toks_notin: "g \<notin> set (params it) \<Longrightarrow> \<not> heads g it \<Longrightarrow> g \<notin> set (toks it)"
  by (cases it) auto

lemma read0_render_pre:
  "clean g items \<Longrightarrow> typed0 g items \<Longrightarrow> g \<notin> set pre \<Longrightarrow>
   read0 g (a # pre @ render items) = (Flag g \<in> set items, a # pre @ render (del1 g items))"
proof (induction items arbitrary: pre)
  case Nil
  then show ?case by (simp add: read0_absent)
next
  case (Cons it its)
  show ?case
  proof (cases "heads g it")
    case True
    with Cons.prems have "it = Flag g" by (simp add: typed0_def)
    with Cons.prems show ?thesis using read0_split [of g pre a "render its"] by simp
  next
    case False
    with Cons.prems have "g \<notin> set (pre @ toks it)"
      by (auto simp: clean_def dest: toks_notin)
    moreover from Cons.prems have "clean g its" "typed0 g its"
      by (simp_all add: clean_def typed0_def)
    ultimately have "read0 g (a # (pre @ toks it) @ render its)
        = (Flag g \<in> set its, a # (pre @ toks it) @ render (del1 g its))"
      by (rule Cons.IH [rotated 2])
    with False show ?thesis by (cases it) auto
  qed
qed

lemma read1_render_pre:
  "clean g items \<Longrightarrow> typed1 valid g items \<Longrightarrow> g \<notin> set pre \<Longrightarrow>
   read1 valid g (a # pre @ render items)
     = ((case vals g items of [] \<Rightarrow> None | v # _ \<Rightarrow> Some v), a # pre @ render (del1 g items))"
proof (induction items arbitrary: pre)
  case Nil
  then show ?case by (simp add: read1_absent)
next
  case (Cons it its)
  show ?case
  proof (cases "heads g it")
    case True
    with Cons.prems obtain v where "it = Opt g v" "valid v" by (auto simp: typed1_def)
    with Cons.prems show ?thesis using read1_split [of g pre valid v a "render its"] by simp
  next
    case False
    with Cons.prems have "g \<notin> set (pre @ toks it)"
      by (auto simp: clean_def dest: toks_notin)
    moreover from Cons.prems have "clean g its" "typed1 valid g its"
      by (simp_all add: clean_def typed1_def)
    ultimately have "read1 valid g (a # (pre @ toks it) @ render its)
        = ((case vals g its of [] \<Rightarrow> None | v # _ \<Rightarrow> Some v), a # (pre @ toks it) @ render (del1 g its))"
      by (rule Cons.IH [rotated 2])
    with False show ?thesis by (cases it) auto
  qed
qed

lemma read4_render_pre:
  "clean g items \<Longrightarrow> typed4 valid g items \<Longrightarrow> g \<notin> set pre \<Longrightarrow>
   read4 valid g (a # pre @ render items)
     = ((case quads g items of [] \<Rightarrow> None | v # _ \<Rightarrow> Some v), a # pre @ render (del1 g items))"
proof (induction items arbitrary: pre)
  case Nil
  then show ?case by (simp add: read4_absent)
next
  case (Cons it its)
  show ?case
  proof (cases "heads g it")
    case True
    with Cons.prems obtain x y z u where "it = Opt4 g x y z u" "valid x" "valid y" "valid z" "valid u"
      by (auto simp: typed4_def)
    with Cons.prems show ?thesis
      using read4_split [of g pre valid x y z u a "render its"] by simp
  next
    case False
    with Cons.prems have "g \<notin> set (pre @ toks it)"
      by (auto simp: clean_def dest: toks_notin)
    moreover from Cons.prems have "clean g its" "typed4 valid g its"
      by (simp_all add: clean_def typed4_def)
    ultimately have "read4 valid g (a # (pre @ toks it) @ render its)
        = ((case quads g its of [] \<Rightarrow> None | v # _ \<Rightarrow> Some v), a # (pre @ toks it) @ render (del1 g its))"
      by (rule Cons.IH [rotated 2])
    with False show ?thesis by (cases it) auto
  qed
qed

lemma del1_none: "\<forall>it \<in> set items. \<not> heads g it \<Longrightarrow> del1 g items = items"
  by (induction items) auto

lemma delall_none: "\<forall>it \<in> set items. \<not> heads g it \<Longrightarrow> delall g items = items"
  by (induction items) (auto simp: delall_def)

lemma delall_del1 [simp]: "delall g (del1 g items) = delall g items"
  by (induction items) (auto simp: delall_def)

lemma set_del1: "set (del1 g items) \<subseteq> set items"
  by (induction items) auto

lemma set_delall: "set (delall g items) \<subseteq> set items"
  by (auto simp: delall_def)

lemma vals_not_heads [simp]: "\<not> heads g it \<Longrightarrow> vals g (it # its) = vals g its"
  by (cases it) auto

lemma quads_not_heads [simp]: "\<not> heads g it \<Longrightarrow> quads g (it # its) = quads g its"
  by (cases it) auto

lemma vals_Nil_typed1: "typed1 valid g items \<Longrightarrow> vals g items = [] \<Longrightarrow> \<forall>it \<in> set items. \<not> heads g it"
  by (induction items) (auto simp: typed1_def)

lemma vals_del1_typed1: "typed1 valid g items \<Longrightarrow> vals g (del1 g items) = tl (vals g items)"
  by (induction items) (auto simp: typed1_def)

lemma quads_Nil_typed4: "typed4 valid g items \<Longrightarrow> quads g items = [] \<Longrightarrow> \<forall>it \<in> set items. \<not> heads g it"
  by (induction items) (auto simp: typed4_def)

lemma quads_del1_typed4: "typed4 valid g items \<Longrightarrow> quads g (del1 g items) = tl (quads g items)"
  by (induction items) (auto simp: typed4_def)

lemma clean_del1: "clean g items \<Longrightarrow> clean g (del1 h items)"
  using set_del1 by (fastforce simp: clean_def)

lemma typed1_del1: "typed1 valid g items \<Longrightarrow> typed1 valid g (del1 h items)"
  using set_del1 by (fastforce simp: typed1_def)

lemma typed4_del1: "typed4 valid g items \<Longrightarrow> typed4 valid g (del1 h items)"
  using set_del1 by (fastforce simp: typed4_def)

lemma while_read1_render:
  "clean g items \<Longrightarrow> typed1 valid g items \<Longrightarrow>
   while_read1 valid g upd s (a # render items)
     = (foldl (\<lambda>s v. upd v s) s (vals g items), a # render (delall g items))"
proof (induction "length (vals g items)" arbitrary: items s)
  case 0
  then have none: "\<forall>it \<in> set items. \<not> heads g it"
    using vals_Nil_typed1 by auto
  from 0 have "read1 valid g (a # render items) = (None, a # render (del1 g items))"
    using read1_render_pre [of g items valid "[]" a] by simp
  with none 0 show ?case
    by (subst while_read1.simps) (simp add: del1_none delall_none)
next
  case (Suc n)
  then obtain v vs where vs: "vals g items = v # vs"
    by (cases "vals g items") auto
  with Suc have r: "read1 valid g (a # render items) = (Some v, a # render (del1 g items))"
    using read1_render_pre [of g items valid "[]" a] by simp
  from Suc vs have "n = length (vals g (del1 g items))"
    by (simp add: vals_del1_typed1)
  moreover from Suc have "clean g (del1 g items)" "typed1 valid g (del1 g items)"
    by (simp_all add: clean_del1 typed1_del1)
  ultimately have "while_read1 valid g upd (upd v s) (a # render (del1 g items))
      = (foldl (\<lambda>s v. upd v s) (upd v s) (vals g (del1 g items)),
         a # render (delall g (del1 g items)))"
    by (rule Suc.hyps(1))
  with r vs Suc.prems show ?case
    by (subst while_read1.simps) (simp add: vals_del1_typed1)
qed

lemma while_read4_render:
  "clean g items \<Longrightarrow> typed4 valid g items \<Longrightarrow>
   while_read4 valid g upd s (a # render items)
     = (foldl (\<lambda>s v. upd v s) s (quads g items), a # render (delall g items))"
proof (induction "length (quads g items)" arbitrary: items s)
  case 0
  then have none: "\<forall>it \<in> set items. \<not> heads g it"
    using quads_Nil_typed4 by auto
  from 0 have "read4 valid g (a # render items) = (None, a # render (del1 g items))"
    using read4_render_pre [of g items valid "[]" a] by simp
  with none 0 show ?case
    by (subst while_read4.simps) (simp add: del1_none delall_none)
next
  case (Suc n)
  then obtain v vs where vs: "quads g items = v # vs"
    by (cases "quads g items") auto
  with Suc have r: "read4 valid g (a # render items) = (Some v, a # render (del1 g items))"
    using read4_render_pre [of g items valid "[]" a] by simp
  from Suc vs have "n = length (quads g (del1 g items))"
    by (simp add: quads_del1_typed4)
  moreover from Suc have "clean g (del1 g items)" "typed4 valid g (del1 g items)"
    by (simp_all add: clean_del1 typed4_del1)
  ultimately have "while_read4 valid g upd (upd v s) (a # render (del1 g items))
      = (foldl (\<lambda>s v. upd v s) (upd v s) (quads g (del1 g items)),
         a # render (delall g (del1 g items)))"
    by (rule Suc.hyps(1))
  with r vs Suc.prems show ?case
    by (subst while_read4.simps) (simp add: quads_del1_typed4)
qed

lemma names_disjoint:
  "g \<in> set flag_names \<Longrightarrow> g \<notin> set string_names \<and> g \<notin> set number_names \<and> g \<noteq> ''--bounds''"
  "g \<in> set string_names \<Longrightarrow> g \<notin> set flag_names \<and> g \<notin> set number_names \<and> g \<noteq> ''--bounds''"
  "g \<in> set number_names \<Longrightarrow> g \<notin> set flag_names \<and> g \<notin> set string_names \<and> g \<noteq> ''--bounds''"
  by (auto simp: flag_names_def string_names_def number_names_def)

lemma wf_clean: "wf_cmdline w items \<Longrightarrow> g \<in> set option_names \<Longrightarrow> clean g items"
  unfolding wf_cmdline_def clean_def list_all_iff
proof
  fix it assume a: "\<forall>x\<in>set items. wf_item w x" "g \<in> set option_names" "it \<in> set items"
  then have "wf_item w it" by simp
  with a(2) show "g \<notin> set (params it)" by (cases it) auto
qed

lemma wf_typed0: "wf_cmdline w items \<Longrightarrow> g \<in> set flag_names \<Longrightarrow> typed0 g items"
  unfolding wf_cmdline_def typed0_def list_all_iff
proof (intro ballI impI)
  fix it assume a: "\<forall>x\<in>set items. wf_item w x" "g \<in> set flag_names" "it \<in> set items" "heads g it"
  then have "wf_item w it" by simp
  with a(2,4) names_disjoint(1) [of g] show "it = Flag g" by (cases it) auto
qed

lemma wf_typed1_string:
  "wf_cmdline w items \<Longrightarrow> g \<in> set string_names \<Longrightarrow> typed1 (\<lambda>_. True) g items"
  unfolding wf_cmdline_def typed1_def list_all_iff
proof (intro ballI impI)
  fix it assume a: "\<forall>x\<in>set items. wf_item w x" "g \<in> set string_names" "it \<in> set items" "heads g it"
  then have "wf_item w it" by simp
  with a(2,4) names_disjoint(2) [of g] show "\<exists>v. it = Opt g v \<and> True" by (cases it) auto
qed

lemma wf_typed1_number:
  "wf_cmdline w items \<Longrightarrow> g \<in> set number_names \<Longrightarrow> typed1 (isNumber w) g items"
  unfolding wf_cmdline_def typed1_def list_all_iff
proof (intro ballI impI)
  fix it assume a: "\<forall>x\<in>set items. wf_item w x" "g \<in> set number_names" "it \<in> set items" "heads g it"
  then have "wf_item w it" by simp
  with a(2,4) names_disjoint(3) [of g] show "\<exists>v. it = Opt g v \<and> isNumber w v" by (cases it) auto
qed

lemma wf_typed4: "wf_cmdline w items \<Longrightarrow> typed4 (isNumber w) ''--bounds'' items"
  unfolding wf_cmdline_def typed4_def list_all_iff
proof (intro ballI impI)
  fix it assume a: "\<forall>x\<in>set items. wf_item w x" "it \<in> set items" "heads ''--bounds'' it"
  then have "wf_item w it" by simp
  with a(3) show "\<exists>a b c d. it = Opt4 ''--bounds'' a b c d \<and> isNumber w a \<and> isNumber w b \<and> isNumber w c \<and> isNumber w d"
    by (cases it) (auto simp: flag_names_def string_names_def number_names_def)
qed

lemma wf_del1 [simp]: "wf_cmdline w items \<Longrightarrow> wf_cmdline w (del1 g items)"
  using set_del1 [of g items] by (auto simp: wf_cmdline_def list_all_iff)

lemma wf_delall [simp]: "wf_cmdline w items \<Longrightarrow> wf_cmdline w (delall g items)"
  by (auto simp: wf_cmdline_def list_all_iff delall_def)

lemma option_names_simps:
  "g \<in> set flag_names \<Longrightarrow> g \<in> set option_names"
  "g \<in> set string_names \<Longrightarrow> g \<in> set option_names"
  "g \<in> set number_names \<Longrightarrow> g \<in> set option_names"
  "''--bounds'' \<in> set option_names"
  by (simp_all add: option_names_def)

lemma read0_wf:
  "wf_cmdline w items \<Longrightarrow> g \<in> set flag_names \<Longrightarrow>
   read0 g (a # render items) = (Flag g \<in> set items, a # render (del1 g items))"
  using read0_render_pre [of g items "[]" a]
  by (simp add: wf_clean wf_typed0 option_names_simps)

lemma read1_wf_string:
  "wf_cmdline w items \<Longrightarrow> g \<in> set string_names \<Longrightarrow>
   read1 (\<lambda>_. True) g (a # render items)
     = ((case vals g items of [] \<Rightarrow> None | v # _ \<Rightarrow> Some v), a # render (del1 g items))"
  using read1_render_pre [of g items "\<lambda>_. True" "[]" a]
  by (simp add: wf_clean wf_typed1_string option_names_simps)

lemma read1_wf_number:
  "wf_cmdline w items \<Longrightarrow> g \<in> set number_names \<Longrightarrow>
   read1 (isNumber w) g (a # render items)
     = ((case vals g items of [] \<Rightarrow> None | v # _ \<Rightarrow> Some v), a # render (del1 g items))"
  using read1_render_pre [of g items "isNumber w" "[]" a]
  by (simp add: wf_clean wf_typed1_number option_names_simps)

lemma while_read1_wf_string:
  "wf_cmdline w items \<Longrightarrow> g \<in> set string_names \<Longrightarrow>
   while_read1 (\<lambda>_. True) g upd s (a # render items)
     = (foldl (\<lambda>s v. upd v s) s (vals g items), a # render (delall g items))"
  by (simp add: while_read1_render wf_clean wf_typed1_string option_names_simps)

lemma while_read1_wf_number:
  "wf_cmdline w items \<Longrightarrow> g \<in> set number_names \<Longrightarrow>
   while_read1 (isNumber w) g upd s (a # render items)
     = (foldl (\<lambda>s v. upd v s) s (vals g items), a # render (delall g items))"
  by (simp add: while_read1_render wf_clean wf_typed1_number option_names_simps)

lemma while_read4_wf:
  "wf_cmdline w items \<Longrightarrow>
   while_read4 (isNumber w) ''--bounds'' upd s (a # render items)
     = (foldl (\<lambda>s v. upd v s) s (quads ''--bounds'' items), a # render (delall ''--bounds'' items))"
  by (simp add: while_read4_render wf_clean wf_typed4 option_names_simps)

lemma vals_del1_other [simp]: "g \<noteq> h \<Longrightarrow> vals g (del1 h items) = vals g items"
  by (induction items rule: vals.induct) auto

lemma vals_delall_other [simp]: "g \<noteq> h \<Longrightarrow> vals g (delall h items) = vals g items"
  by (induction items rule: vals.induct) (auto simp: delall_def)

lemma quads_del1_other [simp]: "g \<noteq> h \<Longrightarrow> quads g (del1 h items) = quads g items"
  by (induction items rule: quads.induct) auto

lemma quads_delall_other [simp]: "g \<noteq> h \<Longrightarrow> quads g (delall h items) = quads g items"
  by (induction items rule: quads.induct) (auto simp: delall_def)

lemma Flag_del1_other [simp]: "g \<noteq> h \<Longrightarrow> Flag g \<in> set (del1 h items) \<longleftrightarrow> Flag g \<in> set items"
  by (induction items) auto

lemma Flag_delall_other [simp]: "g \<noteq> h \<Longrightarrow> Flag g \<in> set (delall h items) \<longleftrightarrow> Flag g \<in> set items"
  by (auto simp: delall_def)

section \<open>The events of a run\<close>

lemma package_layer_eq:
  "package_layer w m l mp f lay st =
     \<lparr>packager = with_cmd mp lay (packager st),
      outMap = map_option (\<lambda>ls. ls @ [out_layer w m f lay]) (outMap st),
      trace = trace st @ layer_events m l lay (with_cmd mp lay (packager st))\<rparr>"
  by (cases lay; cases mp; cases "outMap st")
     (simp_all add: package_layer_def with_cmd_def layer_events_def out_layer_def
        layer_suffix_def Let_def)

lemma setBaseCommand_twice: "setBaseCommand c (setBaseCommand c' pk) = setBaseCommand c pk"
  by (auto simp: setBaseCommand_def split: option.splits visitor_class.splits)

lemma with_cmd_twice [simp]: "with_cmd mp lay (with_cmd mp lay' pk) = with_cmd mp lay pk"
  by (simp add: with_cmd_def setBaseCommand_twice split: option.splits)

lemma setBaseCommand_extension:
  "setBaseCommand c (pk\<lparr>p_extension := e\<rparr>) = (setBaseCommand c pk)\<lparr>p_extension := e\<rparr>"
  by (auto simp: setBaseCommand_def split: option.splits visitor_class.splits)

lemma with_cmd_extension [simp]:
  "with_cmd mp lay (pk\<lparr>p_extension := e\<rparr>) = (with_cmd mp lay pk)\<lparr>p_extension := e\<rparr>"
  by (simp add: with_cmd_def setBaseCommand_extension split: option.splits)

lemma package_image_layers_eq:
  "package_image_layers w m l mp f is st =
     \<lparr>packager = (if is = [] then packager st else with_cmd mp (ImageLayer (last is)) (packager st)),
      outMap = map_option (\<lambda>ls. ls @ map (\<lambda>i. out_layer w m f (ImageLayer i)) is) (outMap st),
      trace = trace st @ concat (map (\<lambda>i. layer_events m l (ImageLayer i)
                                   (with_cmd mp (ImageLayer i) (packager st))) is)\<rparr>"
proof (induction "is" arbitrary: st)
  case Nil
  show ?case by (simp add: option.map_ident)
next
  case (Cons i rest)
  show ?case
    by (simp add: Cons.IH package_layer_eq option.map_comp comp_def)
qed

lemma package_elevation_layers_eq:
  "package_elevation_layers w m l mp f is st =
     \<lparr>packager = (if is = [] then packager st else with_cmd mp (ElevationLayer (last is)) (packager st)),
      outMap = map_option (\<lambda>ls. ls @ map (\<lambda>i. out_layer w m f (ElevationLayer i)) is) (outMap st),
      trace = trace st @ concat (map (\<lambda>i. layer_events m l (ElevationLayer i)
                                   (with_cmd mp (ElevationLayer i) (packager st))) is)\<rparr>"
proof (induction "is" arbitrary: st)
  case Nil
  show ?case by (simp add: option.map_ident)
next
  case (Cons i rest)
  show ?case
    by (simp add: Cons.IH package_layer_eq option.map_comp comp_def)
qed

lemma add_extents_eq:
  "add_extents m bs v =
     v\<lparr>v_extents := v_extents v @ map (\<lambda>b. \<lparr>extent_srs = mapSRS m, extent_bounds = b\<rparr>) bs\<rparr>"
  by (induction bs arbitrary: v) simp_all

lemma settled_setBaseCommand: "settled w m l pk \<Longrightarrow> settled w m l (setBaseCommand c pk)"
  by (auto simp: settled_def setBaseCommand_def split: option.splits visitor_class.splits)

lemma settled_with_cmd: "settled w m l pk \<Longrightarrow> settled w m l (with_cmd mp lay pk)"
  by (simp add: with_cmd_def settled_setBaseCommand split: option.splits)

lemma settled_extension: "settled w m l pk \<Longrightarrow> settled w m l (pk\<lparr>p_extension := e\<rparr>)"
  by (simp add: settled_def)

lemma settled_cong:
  "settled w m l pk \<Longrightarrow> settled w m (l\<lparr>writeXML := x\<rparr>) pk"
  by (simp add: settled_def)

lemma read_layer_indices_fields:
  "read_layer_indices w l a = (l', a') \<Longrightarrow>
     \<exists>i e. l' = l\<lparr>imageLayerIndex := i, elevationLayerIndex := e\<rparr>"
  by (auto simp: read_layer_indices_def Let_def split: prod.splits)

lemma create_visitor_fields:
  "create_visitor w m l a = (v, l', a') \<Longrightarrow>
     (l' = l \<or> l' = l\<lparr>writeXML := False\<rparr>) \<and> v_progress v = False \<and> v_extents v = [] \<and>
     (tileList l \<noteq> [] \<longrightarrow>
        v_class v = TileKeyListVisitor (TaskList_load w (mapProfile m) (tileList l)))"
  by (auto simp: create_visitor_def new_visitor_def split: if_splits prod.splits bool.splits)

lemma settled_setup:
  assumes "create_visitor w m l a = (v, l', a')"
  shows "settled w m l' (setup_packager l' (configure_visitor m l' v))"
  using create_visitor_fields [OF assms]
  by (auto simp: settled_def setup_packager_def new_packager_def configure_visitor_def
        add_extents_eq)

lemma Run_in_layer_events [simp]:
  "Run lay pk \<in> set (layer_events m l lay' pk') \<longleftrightarrow> lay = lay' \<and> pk = pk'"
  by (auto simp: layer_events_def)

lemma Run_in_write_earth_file [simp]: "Run lay pk \<notin> set (write_earth_file w l f om)"
  by (auto simp: write_earth_file_def split: option.splits)

lemma package_runs_cases:
  assumes r: "read_layer_indices w l2 a2 = (l3, a3)"
    and c: "create_visitor w m l3 a3 = (v0, l, a4)"
    and run: "Run lay pk \<in> set (snd (package w m l2 a2))"
  shows "\<exists>pk'. settled w m l pk' \<and>
           (case lay of ImageLayer i \<Rightarrow> pk = pk'
                      | ElevationLayer i \<Rightarrow> pk = pk'\<lparr>p_extension := Some ''tif''\<rparr>)"
proof -
  let ?v = "configure_visitor m l v0"
  let ?pk0 = "setup_packager l ?v"
  have s: "settled w m l ?pk0" by (rule settled_setup [OF c])
  have "(\<exists>i. lay = ImageLayer i \<and> (pk = ?pk0 \<or> pk = with_cmd (mp_baseCommand ?v) lay ?pk0)) \<or>
        (\<exists>i. lay = ElevationLayer i \<and>
           (pk = ?pk0\<lparr>p_extension := Some ''tif''\<rparr> \<or>
            pk = (with_cmd (mp_baseCommand ?v) lay ?pk0)\<lparr>p_extension := Some ''tif''\<rparr>))"
    using run r c
    by (auto simp: package_def package_layers_def package_image_layers_eq
          package_elevation_layers_eq getImageLayerAt_def getElevationLayerAt_def Let_def
          split: if_splits)
  with s settled_with_cmd [OF s] show ?thesis
    by (cases lay) auto
qed

lemma Run_notin_usage [simp]: "Run lay pk \<notin> set (snd (usage msg))"
  by (simp add: usage_def)

lemma main_eq:
  "main w argv =
     (case options_of w argv of
        None \<Rightarrow> (if fst (read0 ''--tms'' argv) then usage ''Failed to load a valid .earth file''
                 else usage [])
      | Some (m, l, a) \<Rightarrow>
          if \<not> fileExists_after_makeDirectory w (rootFolder l)
          then (- 1, [MakeDirectory (rootFolder l), Print ''Failed to create root output folder'',
                      PrintUsage])
          else package w m l a)"
  by (auto simp: main_def options_of_def makeTMS_def usage_def
        split: prod.splits bool.splits option.splits)

lemma main_run:
  assumes "Run lay pk \<in> set (snd (main w argv))"
  obtains m l a where "options_of w argv = Some (m, l, a)"
    and "fileExists_after_makeDirectory w (rootFolder l)"
    and "Run lay pk \<in> set (snd (package w m l a))"
  using assms unfolding main_eq
  by (auto split: option.splits if_splits)

lemma settled_indices:
  "settled w m (l\<lparr>imageLayerIndex := i, elevationLayerIndex := e\<rparr>) pk = settled w m l pk"
  "settled w m (l\<lparr>writeXML := x\<rparr>) pk = settled w m l pk"
  by (simp_all add: settled_def)

lemma main_run_settled:
  assumes "Run lay pk \<in> set (snd (main w argv))"
  shows "\<exists>m l a pk'. options_of w argv = Some (m, l, a) \<and>
           fileExists_after_makeDirectory w (rootFolder l) \<and> settled w m l pk' \<and>
           (case lay of ImageLayer i \<Rightarrow> pk = pk'
                      | ElevationLayer i \<Rightarrow> pk = pk'\<lparr>p_extension := Some ''tif''\<rparr>)"
proof -
  from assms obtain m l a where o: "options_of w argv = Some (m, l, a)"
    and e: "fileExists_after_makeDirectory w (rootFolder l)"
    and r: "Run lay pk \<in> set (snd (package w m l a))"
    by (rule main_run)
  obtain l3 a3 where i: "read_layer_indices w l a = (l3, a3)"
    by (cases "read_layer_indices w l a") auto
  obtain v0 l4 a4 where c: "create_visitor w m l3 a3 = (v0, l4, a4)"
    by (cases "create_visitor w m l3 a3") auto
  from package_runs_cases [OF i c r] obtain pk' where
    s: "settled w m l4 pk'" and
    k: "case lay of ImageLayer i \<Rightarrow> pk = pk' | ElevationLayer i \<Rightarrow> pk = pk'\<lparr>p_extension := Some ''tif''\<rparr>"
    by auto
  from read_layer_indices_fields [OF i] create_visitor_fields [OF c] s
  have "settled w m l pk'"
    by (auto simp: settled_indices)
  with o e k show ?thesis by blast
qed

section \<open>A read only removes arguments\<close>

lemma shrinks_refl [simp]: "shrinks argv argv"
  by (simp add: shrinks_def)

lemma shrinks_trans: "shrinks a b \<Longrightarrow> shrinks b c \<Longrightarrow> shrinks a c"
  by (auto simp: shrinks_def)

lemma find_from_ge: "find_from g xs p = Some q \<Longrightarrow> p \<le> q"
  by (induction xs arbitrary: p) (auto split: if_splits dest: Suc_leD)

lemma args_find_pos: "args_find g argv = Some pos \<Longrightarrow> 1 \<le> pos"
  unfolding args_find_def by (drule find_from_ge) simp

lemma args_remove_subset: "set (args_remove pos n argv) \<subseteq> set argv"
  by (auto simp: args_remove_def dest: in_set_takeD in_set_dropD)

lemma args_remove_tl: "1 \<le> pos \<Longrightarrow> set (tl (args_remove pos n argv)) \<subseteq> set (tl argv)"
proof (cases argv)
  case Nil
  then show ?thesis by (simp add: args_remove_def)
next
  case (Cons a xs)
  assume "1 \<le> pos"
  then obtain p where "pos = Suc p" by (cases pos) auto
  with Cons show ?thesis
    by (auto simp: args_remove_def dest: in_set_takeD in_set_dropD)
qed

lemma args_remove_shrinks: "1 \<le> pos \<Longrightarrow> shrinks (args_remove pos n argv) argv"
  by (simp add: shrinks_def args_remove_subset args_remove_tl)

lemma read0_shrinks: "read0 g argv = (r, argv') \<Longrightarrow> shrinks argv' argv"
  using args_remove_shrinks args_find_pos
  by (fastforce simp: read0_def split: option.splits)

lemma read1_shrinks: "read1 valid g argv = (r, argv') \<Longrightarrow> shrinks argv' argv"
  using args_remove_shrinks args_find_pos
  by (fastforce simp: read1_def split: option.splits if_splits)

lemma read4_shrinks: "read4 valid g argv = (r, argv') \<Longrightarrow> shrinks argv' argv"
  using args_remove_shrinks args_find_pos
  by (fastforce simp: read4_def split: option.splits if_splits)

lemma while_read1_shrinks:
  "while_read1 valid g upd s argv = (r, argv') \<Longrightarrow> shrinks argv' argv"
proof (induction valid g upd s argv rule: while_read1.induct)
  case (1 valid str upd s argv)
  show ?case
  proof (cases "read1 valid str argv")
    case (Pair x a)
    show ?thesis
    proof (cases x)
      case None
      with Pair "1.prems" read1_shrinks [OF Pair] show ?thesis
        by (simp add: while_read1.simps [of valid str upd s argv])
    next
      case (Some v)
      with Pair "1.prems" have "while_read1 valid str upd (upd v s) a = (r, argv')"
        by (simp add: while_read1.simps [of valid str upd s argv])
      with "1.IH" Pair Some have "shrinks argv' a" by simp
      then show ?thesis using read1_shrinks [OF Pair] by (rule shrinks_trans)
    qed
  qed
qed

lemma while_read4_shrinks:
  "while_read4 valid g upd s argv = (r, argv') \<Longrightarrow> shrinks argv' argv"
proof (induction valid g upd s argv rule: while_read4.induct)
  case (1 valid str upd s argv)
  show ?case
  proof (cases "read4 valid str argv")
    case (Pair x a)
    show ?thesis
    proof (cases x)
      case None
      with Pair "1.prems" read4_shrinks [OF Pair] show ?thesis
        by (simp add: while_read4.simps [of valid str upd s argv])
    next
      case (Some v)
      with Pair "1.prems" have "while_read4 valid str upd (upd v s) a = (r, argv')"
        by (simp add: while_read4.simps [of valid str upd s argv])
      with "1.IH" Pair Some have "shrinks argv' a" by simp
      then show ?thesis using read4_shrinks [OF Pair] by (rule shrinks_trans)
    qed
  qed
qed

lemma read0_absent_tl: "g \<notin> set (tl argv) \<Longrightarrow> read0 g argv = (False, argv)"
  by (simp add: read0_def args_find_def find_from_notin)

lemma read1_absent_tl: "g \<notin> set (tl argv) \<Longrightarrow> read1 valid g argv = (None, argv)"
  by (simp add: read1_def args_find_def find_from_notin)

lemma while_read1_absent_tl: "g \<notin> set (tl argv) \<Longrightarrow> while_read1 valid g upd s argv = (s, argv)"
  by (simp add: while_read1.simps [of valid g upd s argv] read1_absent_tl)

lemma read_uint_shrinks:
  "read_uint valid conv g cur argv = (r, argv') \<Longrightarrow> shrinks argv' argv"
  by (auto simp: read_uint_def split: prod.splits option.splits dest: read1_shrinks)

lemma read_int_shrinks:
  "read_int valid conv g cur argv = (r, argv') \<Longrightarrow> shrinks argv' argv"
  by (auto simp: read_int_def split: prod.splits option.splits dest: read1_shrinks)

lemma read_string_shrinks:
  "read_string g cur argv = (ok, r, argv') \<Longrightarrow> shrinks argv' argv"
  by (auto simp: read_string_def split: prod.splits option.splits dest: read1_shrinks)

lemma read_string_absent_tl: "g \<notin> set (tl argv) \<Longrightarrow> read_string g cur argv = (False, cur, argv)"
  by (simp add: read_string_def read1_absent_tl)

lemma read_traversal_options_general:
  assumes "read_traversal_options w argv = (l, a)"
  shows "shrinks a argv"
    and "''--min-level'' \<notin> set (tl argv) \<Longrightarrow> minLevel l = 0"
    and "''--max-level'' \<notin> set (tl argv) \<Longrightarrow> maxLevel l = 5"
    and "''--tiles'' \<notin> set (tl argv) \<Longrightarrow> tileList l = []"
    and "writeXML l"
proof -
  obtain x1 a1 where s1:
    "while_read1 (isNumber w) ''--min-level'' (\<lambda>v _. asUInt w v) 0 argv = (x1, a1)" by force
  obtain x2 a2 where s2:
    "while_read1 (isNumber w) ''--max-level'' (\<lambda>v _. asUInt w v) 5 a1 = (x2, a2)" by force
  obtain x3 a3 where s3:
    "while_read4 (isNumber w) ''--bounds'' (push_bounds w) [] a2 = (x3, a3)" by force
  obtain x4 a4 where s4:
    "while_read1 (\<lambda>_. True) ''--tiles'' (\<lambda>v _. v) [] a3 = (x4, a4)" by force
  obtain x5 a5 where s5: "read0 ''--verbose'' a4 = (x5, a5)" by force
  obtain x6 a6 where s6:
    "read_uint (isNumber w) (asUInt w) ''--batchsize'' 0 a5 = (x6, a6)" by force
  obtain x7 a7 where s7:
    "read_uint (isNumber w) (asUInt w) ''-c'' 0 a6 = (x7, a7)" by force
  obtain x8 a8 where s8:
    "read_uint (isNumber w) (asUInt w) ''--concurrency'' x7 a7 = (x8, a8)" by force
  from assms have l: "l = locals0\<lparr>minLevel := x1, maxLevel := x2, bounds := x3, tileList := x4,
      verbose := x5, batchSize := x6, concurrency := x8\<rparr>" and a: "a = a8"
    by (simp_all add: read_traversal_options_def locals0_def s1 s2 s3 s4 s5 s6 s7 s8)
  have sub1: "shrinks a1 argv" using s1 by (rule while_read1_shrinks)
  have sub2: "shrinks a2 a1" using s2 by (rule while_read1_shrinks)
  have sub3: "shrinks a3 a2" using s3 by (rule while_read4_shrinks)
  have sub4: "shrinks a4 a3" using s4 by (rule while_read1_shrinks)
  have sub5: "shrinks a5 a4" using s5 by (rule read0_shrinks)
  have sub6: "shrinks a6 a5" using s6 by (rule read_uint_shrinks)
  have sub7: "shrinks a7 a6" using s7 by (rule read_uint_shrinks)
  have sub8: "shrinks a8 a7" using s8 by (rule read_uint_shrinks)
  note c2 = shrinks_trans [OF sub2 sub1]
  note c3 = shrinks_trans [OF sub3 c2]
  note c4 = shrinks_trans [OF sub4 c3]
  note c5 = shrinks_trans [OF sub5 c4]
  note c6 = shrinks_trans [OF sub6 c5]
  note c7 = shrinks_trans [OF sub7 c6]
  note c8 = shrinks_trans [OF sub8 c7]
  from a c8 show "shrinks a argv" by simp
  show "minLevel l = 0" if "''--min-level'' \<notin> set (tl argv)"
    using that s1 l by (simp add: while_read1_absent_tl)
  show "maxLevel l = 5" if "''--max-level'' \<notin> set (tl argv)"
  proof -
    from that sub1 have "''--max-level'' \<notin> set (tl a1)" by (auto simp: shrinks_def)
    with s2 l show ?thesis by (simp add: while_read1_absent_tl)
  qed
  show "tileList l = []" if "''--tiles'' \<notin> set (tl argv)"
  proof -
    from that c3 have "''--tiles'' \<notin> set (tl a3)" by (auto simp: shrinks_def)
    with s4 l show ?thesis by (simp add: while_read1_absent_tl)
  qed
  from l show "writeXML l" by (simp add: locals0_def)
qed

lemma findArgumentWithExtension_cases:
  "findArgumentWithExtension w argv ext = [] \<or>
   (findArgumentWithExtension w argv ext \<in> set argv \<and>
    endsWith w (toLower w (trim w (findArgumentWithExtension w argv ext))) ''.earth'')"
  by (induction argv) auto

lemma read_output_options_general:
  assumes "read_output_options w m l0 argv = (l, a)"
  shows "shrinks a argv"
    and "minLevel l = minLevel l0" and "maxLevel l = maxLevel l0"
    and "tileList l = tileList l0" and "writeXML l = writeXML l0"
    and "''--out'' \<notin> set (tl argv) \<Longrightarrow> rootFolder l = earthFile l @ ''.tms_repo''"
    and "earthFile l = [] \<or>
         (earthFile l \<in> set argv \<and> endsWith w (toLower w (trim w (earthFile l))) ''.earth'')"
proof -
  obtain x1 a1 where s1:
    "while_read1 (\<lambda>_. True) ''--index''
       (\<lambda>index bs. push_features w m (features w index) bs) (bounds l0) argv = (x1, a1)"
    by force
  obtain k2 x2 a2 where s2: "read_string ''--ext'' (extension l0) a1 = (k2, x2, a2)"
    by (metis prod_cases3)
  obtain k3 x3 a3 where s3: "read_string ''--out'' (rootFolder l0) a2 = (k3, x3, a3)"
    by (metis prod_cases3)
  obtain x4 a4 where s4: "read0 ''--overwrite'' a3 = (x4, a4)" by force
  obtain k5 x5 a5 where s5: "read_string ''--out-earth'' (outEarth l0) a4 = (k5, x5, a5)"
    by (metis prod_cases3)
  obtain k6 x6 a6 where s6: "read_string ''--db-options'' (dbOptions l0) a5 = (k6, x6, a6)"
    by (metis prod_cases3)
  obtain x7 a7 where s7: "read0 ''--keep-empties'' a6 = (x7, a7)" by force
  obtain x8 a8 where s8: "read0 ''--continue-single-color'' a7 = (x8, a8)" by force
  obtain x9 a9 where s9:
    "read_uint (isNumber w) (asUInt w) ''--elevation-pixel-depth'' (elevationPixelDepth l0) a8
       = (x9, a9)" by force
  let ?e = "findArgumentWithExtension w a2 ''.earth''"
  define R where "R = l0\<lparr>bounds := x1, extension := x2, earthFile := ?e,
         rootFolder := (if \<not> k3 then ?e @ ''.tms_repo'' else x3),
         overwrite := (if x4 then True else overwrite l0), outEarth := x5,
         dbOptions := erase_quotes x6, keepEmpties := x7, continueSingleColor := x8,
         elevationPixelDepth := x9\<rparr>"
  have e: "read_output_options w m l0 argv = (R, a9)"
    unfolding R_def
    by (simp add: read_output_options_def Let_def s1 s2 s3 s4 s5 s6 s7 s8 s9)
  have "(l, a) = (R, a9)"
    by (rule trans [OF assms [symmetric] e])
  then have "l = R \<and> a = a9"
    by (rule prod.inject [THEN iffD1])
  then have lR: "l = R" and a: "a = a9"
    by (rule conjunct1, rule conjunct2)
  from lR have l: "l = l0\<lparr>bounds := x1, extension := x2, earthFile := ?e,
      rootFolder := (if \<not> k3 then ?e @ ''.tms_repo'' else x3),
      overwrite := (if x4 then True else overwrite l0), outEarth := x5,
      dbOptions := erase_quotes x6, keepEmpties := x7, continueSingleColor := x8,
      elevationPixelDepth := x9\<rparr>"
    unfolding R_def .
  have sub1: "shrinks a1 argv" using s1 by (rule while_read1_shrinks)
  have sub2: "shrinks a2 a1" using s2 by (rule read_string_shrinks)
  have sub3: "shrinks a3 a2" using s3 by (rule read_string_shrinks)
  have sub4: "shrinks a4 a3" using s4 by (rule read0_shrinks)
  have sub5: "shrinks a5 a4" using s5 by (rule read_string_shrinks)
  have sub6: "shrinks a6 a5" using s6 by (rule read_string_shrinks)
  have sub7: "shrinks a7 a6" using s7 by (rule read0_shrinks)
  have sub8: "shrinks a8 a7" using s8 by (rule read0_shrinks)
  have sub9: "shrinks a9 a8" using s9 by (rule read_uint_shrinks)
  note c2 = shrinks_trans [OF sub2 sub1]
  note c3 = shrinks_trans [OF sub3 c2]
  note c4 = shrinks_trans [OF sub4 c3]
  note c5 = shrinks_trans [OF sub5 c4]
  note c6 = shrinks_trans [OF sub6 c5]
  note c7 = shrinks_trans [OF sub7 c6]
  note c8 = shrinks_trans [OF sub8 c7]
  note c9 = shrinks_trans [OF sub9 c8]
  from a c9 show "shrinks a argv" by simp
  from l show "minLevel l = minLevel l0" "maxLevel l = maxLevel l0"
    "tileList l = tileList l0" "writeXML l = writeXML l0" by simp_all
  show "rootFolder l = earthFile l @ ''.tms_repo''" if "''--out'' \<notin> set (tl argv)"
  proof -
    from that c2 have "''--out'' \<notin> set (tl a2)" by (auto simp: shrinks_def)
    with s3 have "\<not> k3" by (simp add: read_string_absent_tl)
    with l show ?thesis by simp
  qed
  show "earthFile l = [] \<or>
         (earthFile l \<in> set argv \<and> endsWith w (toLower w (trim w (earthFile l))) ''.earth'')"
  proof -
    from c2 have "set a2 \<subseteq> set argv" by (simp add: shrinks_def)
    with findArgumentWithExtension_cases [of w a2 "''.earth''"] l show ?thesis by auto
  qed
qed

lemma options_of_general:
  assumes "options_of w argv = Some (m, l, a)"
  shows "shrinks a argv"
    and "writeXML l"
    and "''--min-level'' \<notin> set (tl argv) \<Longrightarrow> minLevel l = 0"
    and "''--max-level'' \<notin> set (tl argv) \<Longrightarrow> maxLevel l = 5"
    and "''--tiles'' \<notin> set (tl argv) \<Longrightarrow> tileList l = []"
    and "''--out'' \<notin> set (tl argv) \<Longrightarrow> rootFolder l = earthFile l @ ''.tms_repo''"
    and "earthFile l = [] \<or>
         (earthFile l \<in> set argv \<and> endsWith w (toLower w (trim w (earthFile l))) ''.earth'')"
proof -
  obtain a0 where s0: "read0 ''--tms'' argv = (True, a0)"
    using assms by (auto simp: options_of_def split: prod.splits bool.splits)
  obtain l1 a1 where s1: "read_traversal_options w a0 = (l1, a1)" by force
  from assms s0 s1 have s2: "read_output_options w m l1 a1 = (l, a)"
    by (auto simp: options_of_def read_options_def split: option.splits)
  note t0 = read0_shrinks [OF s0]
  note t1 = shrinks_trans [OF read_traversal_options_general(1) [OF s1] t0]
  note g1 = read_traversal_options_general [OF s1]
  note g2 = read_output_options_general [OF s2]
  show "shrinks a argv" using g2(1) t1 by (rule shrinks_trans)
  show "writeXML l" using g1(5) g2(5) by simp
  show "minLevel l = 0" if "''--min-level'' \<notin> set (tl argv)"
    using that t0 g1(2) g2(2) by (auto simp: shrinks_def)
  show "maxLevel l = 5" if "''--max-level'' \<notin> set (tl argv)"
    using that t0 g1(3) g2(3) by (auto simp: shrinks_def)
  show "tileList l = []" if "''--tiles'' \<notin> set (tl argv)"
    using that t0 g1(4) g2(4) by (auto simp: shrinks_def)
  show "rootFolder l = earthFile l @ ''.tms_repo''" if "''--out'' \<notin> set (tl argv)"
    using that t1 g2(6) by (auto simp: shrinks_def)
  show "earthFile l = [] \<or>
         (earthFile l \<in> set argv \<and> endsWith w (toLower w (trim w (earthFile l))) ''.earth'')"
    using t1 g2(7) by (auto simp: shrinks_def)
qed

section \<open>Runs, manifests and exit code of the packaging\<close>

lemma manifest_log_append [simp]: "manifest_log (xs @ ys) = manifest_log xs @ manifest_log ys"
  by (induction xs rule: manifest_log.induct) auto

lemma manifest_log_layer_events [simp]:
  "manifest_log (layer_events m l lay pk) =
     Packaged lay # (if writeXML l then [Manifest lay] else [])"
  by (simp add: layer_events_def)

lemma manifest_log_write_earth_file [simp]: "manifest_log (write_earth_file w l f om) = []"
  by (simp add: write_earth_file_def split: option.splits)

lemma manifest_log_concat:
  "manifest_log (concat (map f xs)) = concat (map (\<lambda>x. manifest_log (f x)) xs)"
  by (induction xs) auto

lemma distinct_packaged_layers: "distinct (packaged_layers m l)"
  by (auto simp: packaged_layers_def distinct_map inj_on_def split: option.splits)

lemma package_manifest:
  assumes r: "read_layer_indices w l2 a2 = (l3, a3)"
    and c: "create_visitor w m l3 a3 = (v0, l, a4)"
  shows "manifest_log (snd (package w m l2 a2)) =
           concat (map (\<lambda>lay. Packaged lay # (if writeXML l then [Manifest lay] else []))
                     (packaged_layers m l))"
  using r c
  by (auto simp: package_def package_layers_def package_image_layers_eq
        package_elevation_layers_eq packaged_layers_def manifest_log_concat Let_def comp_def
        map_concat
        split: option.splits)

lemma package_exit:
  assumes r: "read_layer_indices w l2 a2 = (l3, a3)"
    and c: "create_visitor w m l3 a3 = (v0, l, a4)"
  shows "fst (package w m l2 a2) =
     (if imageLayerIndex l \<ge> 0 then
        (if getImageLayerAt m (imageLayerIndex l) = None then 1 else 0)
      else if elevationLayerIndex l \<ge> 0 then
        (if getElevationLayerAt m (elevationLayerIndex l) = None then 1 else 0)
      else 0)"
  using r c
  by (auto simp: package_def package_layers_def Let_def split: option.splits)

lemma create_visitor_locals:
  assumes "create_visitor w m l3 a3 = (v0, l, a4)"
  shows "l = l3\<lparr>writeXML := writeXML l3 \<and> tileList l3 = []\<rparr>"
  using assms
  by (auto simp: create_visitor_def split: if_splits prod.splits bool.splits)

lemma MakeDirectory_in_layer_events [simp]: "MakeDirectory r \<notin> set (layer_events m l lay pk)"
  by (simp add: layer_events_def)

lemma MakeDirectory_in_write_earth_file [simp]:
  "MakeDirectory r \<notin> set (write_earth_file w l f om)"
  by (simp add: write_earth_file_def split: option.splits)

lemma package_closed:
  assumes r: "read_layer_indices w l2 a2 = (l3, a3)"
    and c: "create_visitor w m l3 a3 = (v0, l, a4)"
  shows "package w m l2 a2 =
    (let pk0 = setup_packager l (configure_visitor m l v0);
         mp = mp_baseCommand (configure_visitor m l v0);
         f = concatPaths w (rootFolder l) (getSimpleFileName w (outEarth l));
         om = (if outEarth l \<noteq> [] then Some [] else None)
     in if imageLayerIndex l \<ge> 0 then
          (case getImageLayerAt m (imageLayerIndex l) of
             Some lay \<Rightarrow>
               (0, MakeDirectory (rootFolder l) # Run lay pk0
                   # (if writeXML l then [WriteXML lay] else []) @ write_earth_file w l f om)
           | None \<Rightarrow>
               (1, [MakeDirectory (rootFolder l),
                    Print (''Failed to find an image layer at index ''
                           @ show_int (imageLayerIndex l))]))
        else if elevationLayerIndex l \<ge> 0 then
          (case getElevationLayerAt m (elevationLayerIndex l) of
             Some lay \<Rightarrow>
               (0, MakeDirectory (rootFolder l) # Run lay (pk0\<lparr>p_extension := Some ''tif''\<rparr>)
                   # (if writeXML l then [WriteXML lay] else []) @ write_earth_file w l f om)
           | None \<Rightarrow>
               (1, [MakeDirectory (rootFolder l),
                    Print (''Failed to find an elevation layer at index ''
                           @ show_int (elevationLayerIndex l))]))
        else
          (0, MakeDirectory (rootFolder l)
              # concat (map (\<lambda>i. layer_events m l (ImageLayer i)
                                 (with_cmd mp (ImageLayer i) pk0))
                          [0..<length (imageLayers m)])
              @ concat (map (\<lambda>i. layer_events m l (ElevationLayer i)
                                 ((with_cmd mp (ElevationLayer i) pk0)
                                    \<lparr>p_extension := Some ''tif''\<rparr>))
                          [0..<length (elevationLayers m)])
              @ write_earth_file w l f
                  (map_option
                     (\<lambda>ls. ls @ map (\<lambda>i. out_layer w m f (ImageLayer i))
                                    [0..<length (imageLayers m)]
                                @ map (\<lambda>i. out_layer w m f (ElevationLayer i))
                                    [0..<length (elevationLayers m)]) om)))"
  using r c
  by (auto simp: package_def package_layers_def package_image_layers_eq
        package_elevation_layers_eq Let_def option.map_comp comp_def split: option.splits)

lemma package_MakeDirectory:
  "MakeDirectory r \<in> set (snd (package w m l2 a2)) \<longleftrightarrow> r = rootFolder l2"
proof -
  obtain l3 a3 where r: "read_layer_indices w l2 a2 = (l3, a3)" by force
  obtain v0 l a4 where c: "create_visitor w m l3 a3 = (v0, l, a4)" by (metis prod_cases3)
  from read_layer_indices_fields [OF r] create_visitor_locals [OF c]
  have "rootFolder l = rootFolder l2" by auto
  then show ?thesis
    by (auto simp: package_closed [OF r c] Let_def split: option.splits)
qed

lemma WriteNodeFile_in_layer_events [simp]:
  "WriteNodeFile ls f \<notin> set (layer_events m l lay pk)"
  by (simp add: layer_events_def)

lemma write_earth_file_failed:
  assumes "WriteNodeFile ls f \<in> set (write_earth_file w l f' om)" "\<not> writeNodeFile w ls f"
  shows "write_earth_file w l f' om = [WriteNodeFile ls f, Warn (earth_file_warning f)]"
  using assms
  by (auto simp: write_earth_file_def earth_file_warning_def split: option.splits if_splits)

lemma package_WriteNodeFile:
  assumes "WriteNodeFile ls f \<in> set (snd (package w m l2 a2))"
  shows "fst (package w m l2 a2) = 0"
    and "\<not> writeNodeFile w ls f \<Longrightarrow>
           \<exists>pre. snd (package w m l2 a2) = pre @ [WriteNodeFile ls f, Warn (earth_file_warning f)]"
proof -
  obtain l3 a3 where r: "read_layer_indices w l2 a2 = (l3, a3)" by force
  obtain v0 l a4 where c: "create_visitor w m l3 a3 = (v0, l, a4)" by (metis prod_cases3)
  from assms show "fst (package w m l2 a2) = 0"
    by (auto simp: package_closed [OF r c] Let_def split: option.splits if_splits)
  show "\<exists>pre. snd (package w m l2 a2) = pre @ [WriteNodeFile ls f, Warn (earth_file_warning f)]"
    if "\<not> writeNodeFile w ls f"
    using assms that
    by (auto simp: package_closed [OF r c] Let_def
          split: option.splits if_splits dest!: write_earth_file_failed)
qed

subsection \<open>The answer of writeNodeFile matters to the last events only\<close>

lemma push_bounds_writeNodeFile [simp]:
  "push_bounds (w\<lparr>writeNodeFile := g\<rparr>) = push_bounds w"
  by (simp add: fun_eq_iff push_bounds_def)

lemma push_features_writeNodeFile [simp]:
  "push_features (w\<lparr>writeNodeFile := g\<rparr>) m fs bs = push_features w m fs bs"
  by (induction fs arbitrary: bs) simp_all

lemma findArgumentWithExtension_writeNodeFile [simp]:
  "findArgumentWithExtension (w\<lparr>writeNodeFile := g\<rparr>) argv ext
     = findArgumentWithExtension w argv ext"
  by (induction argv) simp_all

lemma read_traversal_options_writeNodeFile [simp]:
  "read_traversal_options (w\<lparr>writeNodeFile := g\<rparr>) argv = read_traversal_options w argv"
  by (simp add: read_traversal_options_def)

lemma read_output_options_writeNodeFile [simp]:
  "read_output_options (w\<lparr>writeNodeFile := g\<rparr>) m l argv = read_output_options w m l argv"
  by (simp add: read_output_options_def)

lemma read_options_writeNodeFile [simp]:
  "read_options (w\<lparr>writeNodeFile := g\<rparr>) argv = read_options w argv"
  by (simp add: read_options_def split: prod.splits option.splits)

lemma options_of_writeNodeFile [simp]:
  "options_of (w\<lparr>writeNodeFile := g\<rparr>) argv = options_of w argv"
  by (simp add: options_of_def split: prod.splits bool.splits)

lemma read_layer_indices_writeNodeFile [simp]:
  "read_layer_indices (w\<lparr>writeNodeFile := g\<rparr>) l argv = read_layer_indices w l argv"
  by (simp add: read_layer_indices_def)

lemma create_visitor_writeNodeFile [simp]:
  "create_visitor (w\<lparr>writeNodeFile := g\<rparr>) m l argv = create_visitor w m l argv"
  by (simp add: create_visitor_def)

lemma package_writeNodeFile:
  "fst (package (w\<lparr>writeNodeFile := g\<rparr>) m l2 a2) = fst (package w m l2 a2)"
  "manifest_log (snd (package (w\<lparr>writeNodeFile := g\<rparr>) m l2 a2))
     = manifest_log (snd (package w m l2 a2))"
proof -
  obtain l3 a3 where r: "read_layer_indices w l2 a2 = (l3, a3)" by force
  obtain v0 l a4 where c: "create_visitor w m l3 a3 = (v0, l, a4)" by (metis prod_cases3)
  have r': "read_layer_indices (w\<lparr>writeNodeFile := g\<rparr>) l2 a2 = (l3, a3)"
    using r by simp
  have c': "create_visitor (w\<lparr>writeNodeFile := g\<rparr>) m l3 a3 = (v0, l, a4)"
    using c by simp
  show "fst (package (w\<lparr>writeNodeFile := g\<rparr>) m l2 a2) = fst (package w m l2 a2)"
    by (simp add: package_exit [OF r c] package_exit [OF r' c'])
  show "manifest_log (snd (package (w\<lparr>writeNodeFile := g\<rparr>) m l2 a2))
     = manifest_log (snd (package w m l2 a2))"
    by (simp add: package_manifest [OF r c] package_manifest [OF r' c'])
qed

lemma manifest_log_usage [simp]: "manifest_log (snd (usage msg)) = []"
  by (simp add: usage_def)

lemma main_writeNodeFile:
  "fst (main (w\<lparr>writeNodeFile := g\<rparr>) argv) = fst (main w argv)"
  "manifest_log (snd (main (w\<lparr>writeNodeFile := g\<rparr>) argv)) = manifest_log (snd (main w argv))"
  by (auto simp: main_eq package_writeNodeFile read0_def usage_def split: option.splits)

section \<open>The options of a well-formed command line\<close>

lemma read_string_wf:
  "wf_cmdline w items \<Longrightarrow> g \<in> set string_names \<Longrightarrow>
   read_string g cur (a # render items)
     = (vals g items \<noteq> [], first_string g cur items, a # render (del1 g items))"
  by (simp add: read_string_def first_string_def read1_wf_string [of w] split: list.splits)

lemma read_uint_wf:
  "wf_cmdline w items \<Longrightarrow> g \<in> set number_names \<Longrightarrow>
   read_uint (isNumber w) (asUInt w) g cur (a # render items)
     = (first_uint w g cur items, a # render (del1 g items))"
  by (simp add: read_uint_def first_uint_def read1_wf_number split: list.splits)

lemma read_int_wf:
  "wf_cmdline w items \<Longrightarrow> g \<in> set number_names \<Longrightarrow>
   read_int (isNumber w) (asInt w) g cur (a # render items)
     = (first_int w g cur items, a # render (del1 g items))"
  by (simp add: read_int_def first_int_def read1_wf_number split: list.splits)

lemma first_other [simp]:
  "g \<noteq> h \<Longrightarrow> first_string g d (del1 h items) = first_string g d items"
  "g \<noteq> h \<Longrightarrow> first_string g d (delall h items) = first_string g d items"
  "g \<noteq> h \<Longrightarrow> first_uint w g u (del1 h items) = first_uint w g u items"
  "g \<noteq> h \<Longrightarrow> first_uint w g u (delall h items) = first_uint w g u items"
  "g \<noteq> h \<Longrightarrow> first_int w g i (del1 h items) = first_int w g i items"
  "g \<noteq> h \<Longrightarrow> first_int w g i (delall h items) = first_int w g i items"
  by (simp_all add: first_string_def first_uint_def first_int_def)

lemma read_traversal_options_wf:
  assumes "wf_cmdline w items"
  shows "read_traversal_options w (a # render items) =
    (locals0\<lparr>minLevel := foldl (\<lambda>s v. asUInt w v) 0 (vals ''--min-level'' items),
             maxLevel := foldl (\<lambda>s v. asUInt w v) 5 (vals ''--max-level'' items),
             bounds := foldl (\<lambda>bs v. push_bounds w v bs) [] (quads ''--bounds'' items),
             tileList := foldl (\<lambda>s v. v) [] (vals ''--tiles'' items),
             verbose := Flag ''--verbose'' \<in> set items,
             batchSize := first_uint w ''--batchsize'' 0 items,
             concurrency := first_uint w ''--concurrency'' (first_uint w ''-c'' 0 items) items\<rparr>,
     a # render (rest1 items))"
  using assms
  by (simp add: read_traversal_options_def rest1_def
      while_read1_wf_number while_read1_wf_string [of w] while_read4_wf read0_wf [of w]
      read_uint_wf number_names_def string_names_def flag_names_def locals0_def)

lemma read_output_options_wf:
  assumes "wf_cmdline w items"
  shows "read_output_options w m l (a # render items) =
    (l\<lparr>bounds := foldl (\<lambda>bs index. push_features w m (features w index) bs) (bounds l)
                   (vals ''--index'' items),
       extension := first_string ''--ext'' (extension l) items,
       earthFile := findArgumentWithExtension w
                      (a # render (del1 ''--ext'' (delall ''--index'' items))) ''.earth'',
       rootFolder := (if vals ''--out'' items = []
                      then findArgumentWithExtension w
                             (a # render (del1 ''--ext'' (delall ''--index'' items))) ''.earth''
                           @ ''.tms_repo''
                      else first_string ''--out'' (rootFolder l) items),
       overwrite := (Flag ''--overwrite'' \<in> set items \<or> overwrite l),
       outEarth := first_string ''--out-earth'' (outEarth l) items,
       dbOptions := erase_quotes (first_string ''--db-options'' (dbOptions l) items),
       keepEmpties := Flag ''--keep-empties'' \<in> set items,
       continueSingleColor := Flag ''--continue-single-color'' \<in> set items,
       elevationPixelDepth :=
         first_uint w ''--elevation-pixel-depth'' (elevationPixelDepth l) items\<rparr>,
     a # render (rest2 items))"
  using assms
  by (simp add: read_output_options_def rest2_def Let_def
      while_read1_wf_string [of w] read0_wf [of w] read_string_wf [of w] read_uint_wf
      number_names_def string_names_def flag_names_def
      del: findArgumentWithExtension.simps)

lemma wf_rest1 [simp]: "wf_cmdline w items \<Longrightarrow> wf_cmdline w (rest1 items)"
  by (simp add: rest1_def)

lemma wf_rest2 [simp]: "wf_cmdline w items \<Longrightarrow> wf_cmdline w (rest2 items)"
  by (simp add: rest2_def)

lemma foldl_last: "foldl (\<lambda>s v. f v) s xs = (if xs = [] then s else f (last xs))"
  by (induction xs arbitrary: s) auto

lemma options_of_wf:
  assumes wf: "wf_cmdline w items"
    and o: "options_of w (a # render items) = Some (m, l, args)"
  shows "Flag ''--tms'' \<in> set items"
    and "MapNode_load w (a # render (rest1 (del1 ''--tms'' items))) = Some m"
    and "args = a # render (rest2 (rest1 (del1 ''--tms'' items)))"
    and "minLevel l = (if vals ''--min-level'' items = [] then 0
                       else asUInt w (last (vals ''--min-level'' items)))"
    and "maxLevel l = (if vals ''--max-level'' items = [] then 5
                       else asUInt w (last (vals ''--max-level'' items)))"
    and "bounds l = foldl (\<lambda>bs index. push_features w m (features w index) bs)
                      (foldl (\<lambda>bs v. push_bounds w v bs) [] (quads ''--bounds'' items))
                      (vals ''--index'' items)"
    and "tileList l = (if vals ''--tiles'' items = [] then [] else last (vals ''--tiles'' items))"
    and "verbose l = (Flag ''--verbose'' \<in> set items)"
    and "rootFolder l = (if vals ''--out'' items = [] then earthFile l @ ''.tms_repo''
                         else first_string ''--out'' [] items)"
    and "overwrite l = (Flag ''--overwrite'' \<in> set items)"
    and "extension l = first_string ''--ext'' [] items"
    and "outEarth l = first_string ''--out-earth'' [] items"
    and "writeXML l"
    and "imageLayerIndex l = - 1"
    and "elevationLayerIndex l = - 1"
    and "earthFile l
           = findArgumentWithExtension w (a # render (left_at_earth_file items)) ''.earth''"
proof -
  let ?items0 = "del1 ''--tms'' items"
  from wf have r0: "read0 ''--tms'' (a # render items)
      = (Flag ''--tms'' \<in> set items, a # render ?items0)"
    by (simp add: read0_wf [of w] flag_names_def)
  with o show tms: "Flag ''--tms'' \<in> set items"
    by (auto simp: options_of_def split: bool.splits)
  from wf have wf0: "wf_cmdline w ?items0" by simp
  note s1 = read_traversal_options_wf [OF wf0, of a]
  from o r0 tms s1 show load: "MapNode_load w (a # render (rest1 ?items0)) = Some m"
    by (auto simp: options_of_def read_options_def split: option.splits)
  from wf0 have wf1: "wf_cmdline w (rest1 ?items0)" by simp
  note s2 = read_output_options_wf [OF wf1, of m _ a]
  from o r0 tms load have l: "(l, args) = read_output_options w m
       (fst (read_traversal_options w (a # render ?items0))) (a # render (rest1 ?items0))"
    by (simp add: options_of_def read_options_def s1)
  then have l': "l = fst (read_output_options w m
       (fst (read_traversal_options w (a # render ?items0))) (a # render (rest1 ?items0)))"
    and a': "args = snd (read_output_options w m
       (fst (read_traversal_options w (a # render ?items0))) (a # render (rest1 ?items0)))"
    by (metis fst_conv, metis snd_conv)
  show "args = a # render (rest2 (rest1 ?items0))"
    unfolding a' s2 by simp
  show "minLevel l = (if vals ''--min-level'' items = [] then 0
                       else asUInt w (last (vals ''--min-level'' items)))"
    unfolding l' s2 s1 by (simp add: locals0_def foldl_last)
  show "maxLevel l = (if vals ''--max-level'' items = [] then 5
                       else asUInt w (last (vals ''--max-level'' items)))"
    unfolding l' s2 s1 by (simp add: locals0_def foldl_last)
  show "bounds l = foldl (\<lambda>bs index. push_features w m (features w index) bs)
                      (foldl (\<lambda>bs v. push_bounds w v bs) [] (quads ''--bounds'' items))
                      (vals ''--index'' items)"
    unfolding l' s2 s1 by (simp add: locals0_def rest1_def)
  show "tileList l = (if vals ''--tiles'' items = [] then [] else last (vals ''--tiles'' items))"
    unfolding l' s2 s1 by (simp add: locals0_def foldl_last)
  show "verbose l = (Flag ''--verbose'' \<in> set items)"
    unfolding l' s2 s1 by (simp add: locals0_def)
  show "rootFolder l = (if vals ''--out'' items = [] then earthFile l @ ''.tms_repo''
                         else first_string ''--out'' [] items)"
    unfolding l' s2 s1 by (simp add: locals0_def rest1_def del: findArgumentWithExtension.simps)
  show "overwrite l = (Flag ''--overwrite'' \<in> set items)"
    unfolding l' s2 s1 by (simp add: locals0_def rest1_def)
  show "extension l = first_string ''--ext'' [] items"
    unfolding l' s2 s1 by (simp add: locals0_def rest1_def)
  show "outEarth l = first_string ''--out-earth'' [] items"
    unfolding l' s2 s1 by (simp add: locals0_def rest1_def)
  show "writeXML l"
    unfolding l' s2 s1 by (simp add: locals0_def)
  show "imageLayerIndex l = - 1"
    unfolding l' s2 s1 by (simp add: locals0_def)
  show "elevationLayerIndex l = - 1"
    unfolding l' s2 s1 by (simp add: locals0_def)
  show "earthFile l
          = findArgumentWithExtension w (a # render (left_at_earth_file items)) ''.earth''"
    unfolding l' s2 s1
    by (simp add: locals0_def left_at_earth_file_def del: findArgumentWithExtension.simps)
qed

lemma read_layer_indices_wf:
  assumes "wf_cmdline w items"
  shows "read_layer_indices w l (a # render items) =
    (l\<lparr>imageLayerIndex := first_int w ''--image'' (imageLayerIndex l) items,
       elevationLayerIndex := first_int w ''--elevation'' (elevationLayerIndex l) items\<rparr>,
     a # render (del1 ''--elevation'' (del1 ''--image'' items)))"
  using assms
  by (simp add: read_layer_indices_def Let_def read_int_wf number_names_def)

lemma main_exit_wf:
  assumes wf: "wf_cmdline w items"
    and o: "options_of w (a # render items) = Some (m, l, args)"
    and e: "fileExists_after_makeDirectory w (rootFolder l)"
  shows "fst (main w (a # render items)) =
     (if 0 \<le> first_int w ''--image'' (- 1) items then
        (if getImageLayerAt m (first_int w ''--image'' (- 1) items) = None then 1 else 0)
      else if 0 \<le> first_int w ''--elevation'' (- 1) items then
        (if getElevationLayerAt m (first_int w ''--elevation'' (- 1) items) = None then 1 else 0)
      else 0)"
proof -
  note f = options_of_wf [OF wf o]
  let ?rest = "rest2 (rest1 (del1 ''--tms'' items))"
  have wf2: "wf_cmdline w ?rest" using wf by simp
  define l3 where "l3 = l\<lparr>imageLayerIndex := first_int w ''--image'' (- 1) items,
       elevationLayerIndex := first_int w ''--elevation'' (- 1) items\<rparr>"
  have r: "read_layer_indices w l args = (l3, a # render (del1 ''--elevation'' (del1 ''--image'' ?rest)))"
    unfolding f(3) read_layer_indices_wf [OF wf2] l3_def
    by (simp add: f(14) f(15) rest1_def rest2_def)
  obtain v0 l4 a4 where c:
    "create_visitor w m l3 (a # render (del1 ''--elevation'' (del1 ''--image'' ?rest))) = (v0, l4, a4)"
    by (metis prod_cases3)
  from create_visitor_locals [OF c]
  have i: "imageLayerIndex l4 = first_int w ''--image'' (- 1) items"
    "elevationLayerIndex l4 = first_int w ''--elevation'' (- 1) items"
    by (simp_all add: l3_def)
  from o e have "main w (a # render items) = package w m l args"
    by (simp add: main_eq)
  then show ?thesis
    by (simp add: package_exit [OF r c] i)
qed

section \<open>What \<open>main\<close> does\<close>

lemma main_run_visitor:
  assumes "Run lay pk \<in> set (snd (main w argv))"
  shows "\<exists>m l a v. options_of w argv = Some (m, l, a) \<and>
     fileExists_after_makeDirectory w (rootFolder l) \<and>
     p_visitor pk = Some v \<and>
     p_destination pk = Some (rootFolder l) \<and>
     v_minLevel v = Some (minLevel l) \<and>
     v_maxLevel v = Some (maxLevel l) \<and>
     v_extents v = map (\<lambda>b. \<lparr>extent_srs = mapSRS m, extent_bounds = b\<rparr>) (bounds l) \<and>
     (tileList l \<noteq> [] \<longrightarrow>
        v_class v = TileKeyListVisitor (TaskList_load w (mapProfile m) (tileList l)))"
proof -
  from main_run_settled [OF assms] obtain m l a pk' where
    o: "options_of w argv = Some (m, l, a)"
    and e: "fileExists_after_makeDirectory w (rootFolder l)"
    and s: "settled w m l pk'"
    and k: "case lay of ImageLayer i \<Rightarrow> pk = pk'
                      | ElevationLayer i \<Rightarrow> pk = pk'\<lparr>p_extension := Some ''tif''\<rparr>"
    by blast
  from k have "p_visitor pk = p_visitor pk'" "p_destination pk = p_destination pk'"
    by (cases lay; simp)+
  with s o e show ?thesis
    by (auto simp: settled_def)
qed

lemma main_manifest:
  "\<exists>layers. distinct layers \<and>
     manifest_log (snd (main w argv)) =
       concat (map (\<lambda>lay. Packaged lay #
                      (if (case options_of w argv of None \<Rightarrow> True
                           | Some (m, l, a) \<Rightarrow> tileList l = [])
                       then [Manifest lay] else [])) layers)"
proof (cases "options_of w argv")
  case None
  then have "manifest_log (snd (main w argv)) = []"
    by (simp add: main_eq)
  then show ?thesis by (intro exI [of _ "[]"]) simp
next
  case (Some x)
  then obtain m l a where o: "options_of w argv = Some (m, l, a)" by (cases x) auto
  show ?thesis
  proof (cases "fileExists_after_makeDirectory w (rootFolder l)")
    case False
    with o have "manifest_log (snd (main w argv)) = []"
      by (simp add: main_eq)
    then show ?thesis by (intro exI [of _ "[]"]) simp
  next
    case True
    obtain l3 a3 where r: "read_layer_indices w l a = (l3, a3)" by force
    obtain v0 l4 a4 where c: "create_visitor w m l3 a3 = (v0, l4, a4)" by (metis prod_cases3)
    from read_layer_indices_fields [OF r] create_visitor_locals [OF c] options_of_general(2) [OF o]
    have x: "writeXML l4 = (tileList l = [])" by auto
    from o True have "main w argv = package w m l a" by (simp add: main_eq)
    with package_manifest [OF r c] x o
    have "manifest_log (snd (main w argv)) =
       concat (map (\<lambda>lay. Packaged lay #
                      (if (case options_of w argv of None \<Rightarrow> True
                           | Some (m, l, a) \<Rightarrow> tileList l = [])
                       then [Manifest lay] else [])) (packaged_layers m l4))"
      by simp
    with distinct_packaged_layers [of m l4] show ?thesis by blast
  qed
qed

lemma foldl_push_bounds:
  "foldl (\<lambda>bs v. push_bounds w v bs) bs0 qs =
     bs0 @ map (\<lambda>(x0, y0, x1, y1). \<lparr>xMin = asDouble w x0, yMin = asDouble w y0,
                                    xMax = asDouble w x1, yMax = asDouble w y1\<rparr>) qs"
  by (induction qs arbitrary: bs0) (auto simp: push_bounds_def)

lemma push_features_eq:
  "push_features w m fs bs = bs @ map (\<lambda>f. extent_bounds (transform w f (mapSRS m))) fs"
  by (induction fs arbitrary: bs) auto

lemma foldl_push_features:
  "foldl (\<lambda>bs index. push_features w m (features w index) bs) bs0 idxs =
     bs0 @ concat (map (\<lambda>index. map (\<lambda>f. extent_bounds (transform w f (mapSRS m)))
                                    (features w index)) idxs)"
  by (induction idxs arbitrary: bs0) (auto simp: push_features_eq)

lemma bounds_spec_extents:
  assumes "wf_cmdline w items" and "options_of w (a # render items) = Some (m, l, args)"
  shows "map (\<lambda>b. \<lparr>extent_srs = mapSRS m, extent_bounds = b\<rparr>) (bounds l) = spec_extents w m items"
  unfolding options_of_wf(6) [OF assms] foldl_push_features foldl_push_bounds spec_extents_def
  by (simp add: map_concat comp_def case_prod_unfold)

lemma package_exit_range: "fst (package w m l2 a2) = 0 \<or> fst (package w m l2 a2) = 1"
proof -
  obtain l3 a3 where r: "read_layer_indices w l2 a2 = (l3, a3)" by force
  obtain v0 l a4 where c: "create_visitor w m l3 a3 = (v0, l, a4)" by (metis prod_cases3)
  show ?thesis by (simp add: package_exit [OF r c])
qed

lemma main_exit_range: "fst (main w argv) \<in> {- 1, 0, 1}"
  using package_exit_range
  by (auto simp: main_eq usage_def split: option.splits)

lemma main_without_tms: "''--tms'' \<notin> set (tl argv) \<Longrightarrow> main w argv = usage []"
  by (simp add: main_def read0_absent_tl)

lemma findArgumentWithExtension_find:
  "findArgumentWithExtension w argv ext
     = (case List.find (ends_with_earth w) argv of None \<Rightarrow> [] | Some arg \<Rightarrow> arg)"
  by (induction argv) (simp_all add: ends_with_earth_def)

section \<open>The claims\<close>

text \<open>
  C1. On a well-formed command line that gives a task file with \<open>--tiles\<close> (the last one
  counts when the option is repeated), every layer is run with a key-list visitor whose keys
  are those loaded from that file for the profile of the map, whatever else the command line
  holds, \<open>--mt\<close> and \<open>--mp\<close> included.
\<close>

theorem task_file_selects_key_list_visitor:
  assumes "wf_cmdline w items"
    and "vals ''--tiles'' items \<noteq> []"
    and "last (vals ''--tiles'' items) \<noteq> []"
    and "Run lay pk \<in> set (snd (main w (prog # render items)))"
  shows "\<exists>m l a v. options_of w (prog # render items) = Some (m, l, a) \<and>
           p_visitor pk = Some v \<and>
           v_class v = TileKeyListVisitor
                         (TaskList_load w (mapProfile m) (last (vals ''--tiles'' items)))"
proof -
  from main_run_visitor [OF assms(4)] obtain m l a v
    where o: "options_of w (prog # render items) = Some (m, l, a)"
    and v: "p_visitor pk = Some v"
    and c: "tileList l \<noteq> [] \<longrightarrow>
           v_class v = TileKeyListVisitor (TaskList_load w (mapProfile m) (tileList l))"
    by blast
  from options_of_wf(7) [OF assms(1) o] assms(2)
  have "tileList l = last (vals ''--tiles'' items)" by simp
  with c assms(3) o v show ?thesis by simp
qed

theorem task_file_selects_key_list_visitor_witness:
  "wf_cmdline sample_world
     [Flag ''--tms'', Arg ''map.earth'', Flag ''--mp'', Flag ''--mt'', Opt ''--tiles'' ''batch.txt'']
   \<and> vals ''--tiles''
       [Flag ''--tms'', Arg ''map.earth'', Flag ''--mp'', Flag ''--mt'', Opt ''--tiles'' ''batch.txt'']
       = [''batch.txt'']
   \<and> Run (ImageLayer 0)
       \<lparr>p_visitor = Some \<lparr>v_class = TileKeyListVisitor
                              [\<lparr>key_level = 1, key_column = 0, key_row = 0\<rparr>,
                               \<lparr>key_level = 1, key_column = 1, key_row = 0\<rparr>],
                           v_progress = False, v_minLevel = Some 0,
                           v_maxLevel = Some 5, v_extents = ([] :: int GeoExtent list)\<rparr>,
        p_destination = Some ''map.earth.tms_repo'', p_extension = None,
        p_elevationPixelDepth = Some 32, p_writeOptions = Some []\<rparr>
       \<in> set (snd (main sample_world
                    (''osgearth_package'' # render [Flag ''--tms'', Arg ''map.earth'',
                       Flag ''--mp'', Flag ''--mt'', Opt ''--tiles'' ''batch.txt''])))
   \<and> (\<exists>m l a v. options_of sample_world
          (''osgearth_package'' # render [Flag ''--tms'', Arg ''map.earth'', Flag ''--mp'',
             Flag ''--mt'', Opt ''--tiles'' ''batch.txt'']) = Some (m, l, a) \<and>
        p_visitor
          \<lparr>p_visitor = Some \<lparr>v_class = TileKeyListVisitor
                                 [\<lparr>key_level = 1, key_column = 0, key_row = 0\<rparr>,
                                  \<lparr>key_level = 1, key_column = 1, key_row = 0\<rparr>],
                              v_progress = False, v_minLevel = Some 0,
                              v_maxLevel = Some 5, v_extents = ([] :: int GeoExtent list)\<rparr>,
           p_destination = Some ''map.earth.tms_repo'', p_extension = None,
           p_elevationPixelDepth = Some 32, p_writeOptions = Some []\<rparr> = Some v \<and>
        v_class v = TileKeyListVisitor (TaskList_load sample_world (mapProfile m) ''batch.txt''))"
proof -
  let ?items = "[Flag ''--tms'', Arg ''map.earth'', Flag ''--mp'', Flag ''--mt'',
                 Opt ''--tiles'' ''batch.txt'']"
  let ?pk = "\<lparr>p_visitor = Some \<lparr>v_class = TileKeyListVisitor
                                 [\<lparr>key_level = 1, key_column = 0, key_row = 0\<rparr>,
                                  \<lparr>key_level = 1, key_column = 1, key_row = 0\<rparr>],
                              v_progress = False, v_minLevel = Some 0,
                              v_maxLevel = Some 5, v_extents = ([] :: int GeoExtent list)\<rparr>,
           p_destination = Some ''map.earth.tms_repo'', p_extension = None,
           p_elevationPixelDepth = Some 32, p_writeOptions = Some []\<rparr>"
  have wf: "wf_cmdline sample_world ?items" by code_simp
  have given: "vals ''--tiles'' ?items \<noteq> []" by code_simp
  have named: "last (vals ''--tiles'' ?items) \<noteq> []" by code_simp
  have run: "Run (ImageLayer 0) ?pk
     \<in> set (snd (main sample_world (''osgearth_package'' # render ?items)))"
    by code_simp
  have v: "vals ''--tiles'' ?items = [''batch.txt'']" by code_simp
  from task_file_selects_key_list_visitor [OF wf given named run] wf v run show ?thesis
    by simp
qed

text \<open>
  C2. The manifest is written once for each packaged layer, right after the run on that
  layer, and by the coordinator only. Of the events of a run, keep the runs on layers and the
  manifests written: without \<open>--tiles\<close> they are, for a list of distinct layers, the run on a
  layer followed by the manifest of that layer; on a well-formed command line that gives a
  task file they are runs only.
\<close>

theorem manifest_once_per_layer_by_coordinator_only:
  "(''--tiles'' \<notin> set (tl argv) \<longrightarrow>
      (\<exists>layers. distinct layers \<and>
         manifest_log (snd (main w argv))
           = concat (map (\<lambda>lay. [Packaged lay, Manifest lay]) layers))) \<and>
   (wf_cmdline w items \<and> vals ''--tiles'' items \<noteq> [] \<and> last (vals ''--tiles'' items) \<noteq> [] \<longrightarrow>
      (\<exists>layers. distinct layers \<and>
         manifest_log (snd (main w (prog # render items))) = map Packaged layers))"
proof (intro conjI impI)
  assume absent: "''--tiles'' \<notin> set (tl argv)"
  have "(case options_of w argv of None \<Rightarrow> True | Some (m, l, a) \<Rightarrow> tileList l = [])"
    using options_of_general(5) [OF _ absent] by (auto split: option.splits)
  with main_manifest [of w argv]
  show "\<exists>layers. distinct layers \<and>
         manifest_log (snd (main w argv))
           = concat (map (\<lambda>lay. [Packaged lay, Manifest lay]) layers)"
    by simp
next
  assume given: "wf_cmdline w items \<and> vals ''--tiles'' items \<noteq> [] \<and>
    last (vals ''--tiles'' items) \<noteq> []"
  let ?argv = "prog # render items"
  from main_manifest [of w ?argv] obtain layers where d: "distinct layers"
    and m: "manifest_log (snd (main w ?argv)) =
       concat (map (\<lambda>lay. Packaged lay #
                      (if (case options_of w ?argv of None \<Rightarrow> True
                           | Some (m, l, a) \<Rightarrow> tileList l = [])
                       then [Manifest lay] else [])) layers)"
    by blast
  show "\<exists>layers. distinct layers \<and>
         manifest_log (snd (main w ?argv)) = map Packaged layers"
  proof (cases "options_of w ?argv")
    case None
    then have "manifest_log (snd (main w ?argv)) = []" by (simp add: main_eq)
    then show ?thesis by (intro exI [of _ "[]"]) simp
  next
    case (Some x)
    then obtain m' l a where o: "options_of w ?argv = Some (m', l, a)" by (cases x) auto
    from options_of_wf(7) [OF _ o] given have "tileList l \<noteq> []" by simp
    with m o have "manifest_log (snd (main w ?argv)) = map Packaged layers"
      by (simp add: concat_map_singleton)
    with d show ?thesis by blast
  qed
qed

theorem manifest_once_per_layer_by_coordinator_only_witness:
  "''--tiles'' \<notin> set (tl [''osgearth_package'', ''--tms'', ''map.earth''])
   \<and> manifest_log (snd (main sample_world [''osgearth_package'', ''--tms'', ''map.earth'']))
       = [Packaged (ImageLayer 0), Manifest (ImageLayer 0),
          Packaged (ElevationLayer 0), Manifest (ElevationLayer 0)]
   \<and> (\<exists>layers. distinct layers \<and>
         manifest_log (snd (main sample_world [''osgearth_package'', ''--tms'', ''map.earth'']))
           = concat (map (\<lambda>lay. [Packaged lay, Manifest lay]) layers))
   \<and> wf_cmdline sample_world [Flag ''--tms'', Arg ''map.earth'', Opt ''--tiles'' ''batch.txt'']
   \<and> last (vals ''--tiles'' [Flag ''--tms'', Arg ''map.earth'', Opt ''--tiles'' ''batch.txt''])
       = ''batch.txt''
   \<and> manifest_log (snd (main sample_world
        (''osgearth_package'' # render [Flag ''--tms'', Arg ''map.earth'',
                                        Opt ''--tiles'' ''batch.txt''])))
       = [Packaged (ImageLayer 0), Packaged (ElevationLayer 0)]
   \<and> (\<exists>layers. distinct layers \<and>
         manifest_log (snd (main sample_world
            (''osgearth_package'' # render [Flag ''--tms'', Arg ''map.earth'',
                                            Opt ''--tiles'' ''batch.txt''])))
           = map Packaged layers)"
proof -
  let ?items = "[Flag ''--tms'', Arg ''map.earth'', Opt ''--tiles'' ''batch.txt'']"
  have absent: "''--tiles'' \<notin> set (tl [''osgearth_package'', ''--tms'', ''map.earth''])"
    by code_simp
  have coordinator:
    "manifest_log (snd (main sample_world [''osgearth_package'', ''--tms'', ''map.earth'']))
       = [Packaged (ImageLayer 0), Manifest (ImageLayer 0),
          Packaged (ElevationLayer 0), Manifest (ElevationLayer 0)]"
    by code_simp
  have wf: "wf_cmdline sample_world ?items" by code_simp
  have given: "vals ''--tiles'' ?items \<noteq> []" by code_simp
  have named: "last (vals ''--tiles'' ?items) = ''batch.txt''" by code_simp
  have worker: "manifest_log (snd (main sample_world (''osgearth_package'' # render ?items)))
       = [Packaged (ImageLayer 0), Packaged (ElevationLayer 0)]"
    by code_simp
  note inst = manifest_once_per_layer_by_coordinator_only
    [of "[''osgearth_package'', ''--tms'', ''map.earth'']" sample_world
        "[Flag ''--tms'', Arg ''map.earth'', Opt ''--tiles'' ''batch.txt'']"
        "''osgearth_package''"]
  from inst absent have c: "\<exists>layers. distinct layers \<and>
         manifest_log (snd (main sample_world [''osgearth_package'', ''--tms'', ''map.earth'']))
           = concat (map (\<lambda>lay. [Packaged lay, Manifest lay]) layers)"
    by blast
  from inst wf given named have k: "\<exists>layers. distinct layers \<and>
         manifest_log (snd (main sample_world (''osgearth_package'' # render ?items)))
           = map Packaged layers"
    by simp
  from absent coordinator c wf named worker k show ?thesis
    by (intro conjI)
qed

text \<open>
  C3. The base command never holds \<open>--overwrite\<close>: it is the same with and without the
  parent's flag. At the command line \<open>osgearth_package --tms map.earth --mp --overwrite
  --ext jpg --out repo\<close> the base commands set on the multiprocess visitor, one for the run
  on each layer, give the extension under \<open>--extension\<close> (and no output folder); a worker
  started with the words of the first of them and a task file reads neither an extension nor
  the overwrite flag (\<open>makeTMS\<close> reads \<open>--ext\<close>).
\<close>

theorem worker_command_at_overwrite_and_ext:
  "baseCommand_of (l\<lparr>overwrite := True\<rparr>) e = baseCommand_of (l\<lparr>overwrite := False\<rparr>) e \<and>
   base_commands (snd (main sample_world
      [''osgearth_package'', ''--tms'', ''map.earth'', ''--mp'', ''--overwrite'',
       ''--ext'', ''jpg'', ''--out'', ''repo'']))
   = [''osgearth_package2 --tms  --extension jpg  --elevation-pixel-depth 32  map.earth --image 0'',
      ''osgearth_package2 --tms  --extension jpg  --elevation-pixel-depth 32  map.earth --elevation 0''] \<and>
   map_option (\<lambda>(m, l, a). (overwrite l, extension l))
     (options_of sample_world
        [''osgearth_package2'', ''--tms'', ''--extension'', ''jpg'', ''--elevation-pixel-depth'',
         ''32'', ''map.earth'', ''--image'', ''0'', ''--tiles'', ''batch.txt''])
   = Some (False, [])"
proof (intro conjI)
  show "baseCommand_of (l\<lparr>overwrite := True\<rparr>) e = baseCommand_of (l\<lparr>overwrite := False\<rparr>) e"
    by (simp add: baseCommand_of_def)
  show "base_commands (snd (main sample_world
      [''osgearth_package'', ''--tms'', ''map.earth'', ''--mp'', ''--overwrite'',
       ''--ext'', ''jpg'', ''--out'', ''repo'']))
   = [''osgearth_package2 --tms  --extension jpg  --elevation-pixel-depth 32  map.earth --image 0'',
      ''osgearth_package2 --tms  --extension jpg  --elevation-pixel-depth 32  map.earth --elevation 0'']"
    by code_simp
  show "map_option (\<lambda>(m, l, a). (overwrite l, extension l))
     (options_of sample_world
        [''osgearth_package2'', ''--tms'', ''--extension'', ''jpg'', ''--elevation-pixel-depth'',
         ''32'', ''map.earth'', ''--image'', ''0'', ''--tiles'', ''batch.txt''])
   = Some (False, [])"
    by code_simp
qed

text \<open>
  C4, as the claim states it, fails: with \<open>--image 0 --elevation 7\<close> on a map with one
  elevation layer the elevation index 7 is no layer of the map, and the exit code is 0.
\<close>

theorem exit_code_with_missing_elevation_index_counterexample:
  "getElevationLayerAt sample_map (asInt sample_world ''7'') = None \<and>
   fst (main sample_world
          [''osgearth_package'', ''--tms'', ''map.earth'', ''--image'', ''0'',
           ''--elevation'', ''7'']) = 0"
  by code_simp

text \<open>
  C4, amended. The exit code is -1, 0 or 1. It is -1 without \<open>--tms\<close>. On a well-formed
  command line it is -1 when \<open>--tms\<close> is missing or no map could be loaded, -1 when the output
  folder could not be made, and otherwise 1 exactly when the layer chosen for packaging is
  missing from the map: the image layer at the first \<open>--image n\<close> when \<open>n \<ge> 0\<close>, and only
  when no such image index is given the elevation layer at the first \<open>--elevation n\<close> when
  \<open>n \<ge> 0\<close>; in every other case it is 0.
\<close>

theorem exit_codes:
  "fst (main w argv) \<in> {- 1, 0, 1} \<and>
   (''--tms'' \<notin> set (tl argv) \<longrightarrow> fst (main w argv) = - 1) \<and>
   (wf_cmdline w items \<longrightarrow>
      fst (main w (prog # render items)) =
        (case options_of w (prog # render items) of
           None \<Rightarrow> - 1
         | Some (m, l, a) \<Rightarrow>
             if \<not> fileExists_after_makeDirectory w (rootFolder l) then - 1
             else if 0 \<le> first_int w ''--image'' (- 1) items then
               (if getImageLayerAt m (first_int w ''--image'' (- 1) items) = None then 1 else 0)
             else if 0 \<le> first_int w ''--elevation'' (- 1) items then
               (if getElevationLayerAt m (first_int w ''--elevation'' (- 1) items) = None
                then 1 else 0)
             else 0))"
proof (intro conjI impI)
  show "fst (main w argv) \<in> {- 1, 0, 1}" by (rule main_exit_range)
  show "fst (main w argv) = - 1" if "''--tms'' \<notin> set (tl argv)"
    using that by (simp add: main_without_tms usage_def)
  assume wf: "wf_cmdline w items"
  let ?argv = "prog # render items"
  show "fst (main w ?argv) =
        (case options_of w ?argv of
           None \<Rightarrow> - 1
         | Some (m, l, a) \<Rightarrow>
             if \<not> fileExists_after_makeDirectory w (rootFolder l) then - 1
             else if 0 \<le> first_int w ''--image'' (- 1) items then
               (if getImageLayerAt m (first_int w ''--image'' (- 1) items) = None then 1 else 0)
             else if 0 \<le> first_int w ''--elevation'' (- 1) items then
               (if getElevationLayerAt m (first_int w ''--elevation'' (- 1) items) = None
                then 1 else 0)
             else 0)"
  proof (cases "options_of w ?argv")
    case None
    then show ?thesis by (simp add: main_eq usage_def)
  next
    case (Some x)
    then obtain m l a where o: "options_of w ?argv = Some (m, l, a)" by (cases x) auto
    show ?thesis
    proof (cases "fileExists_after_makeDirectory w (rootFolder l)")
      case False
      with o show ?thesis by (simp add: main_eq)
    next
      case True
      from main_exit_wf [OF wf o True] o True show ?thesis by simp
    qed
  qed
qed

theorem exit_codes_witness:
  "wf_cmdline sample_world [Flag ''--tms'', Arg ''map.earth'', Opt ''--image'' ''5'']
   \<and> fst (main sample_world
            (''osgearth_package'' # render [Flag ''--tms'', Arg ''map.earth'', Opt ''--image'' ''5'']))
       = 1
   \<and> ''--tms'' \<notin> set (tl [''osgearth_package'', ''map.earth''])
   \<and> fst (main sample_world [''osgearth_package'', ''map.earth'']) = - 1"
proof -
  let ?items = "[Flag ''--tms'', Arg ''map.earth'', Opt ''--image'' ''5'']"
  have wf: "wf_cmdline sample_world ?items" by code_simp
  have absent: "''--tms'' \<notin> set (tl [''osgearth_package'', ''map.earth''])" by code_simp
  have decided:
    "(case options_of sample_world (''osgearth_package'' # render ?items) of
        None \<Rightarrow> - 1
      | Some (m, l, a) \<Rightarrow>
          if \<not> fileExists_after_makeDirectory sample_world (rootFolder l) then - 1
          else if 0 \<le> first_int sample_world ''--image'' (- 1) ?items then
            (if getImageLayerAt m (first_int sample_world ''--image'' (- 1) ?items) = None
             then 1 else 0)
          else if 0 \<le> first_int sample_world ''--elevation'' (- 1) ?items then
            (if getElevationLayerAt m (first_int sample_world ''--elevation'' (- 1) ?items) = None
             then 1 else 0)
          else 0) = (1 :: int)"
    by code_simp
  note inst = exit_codes [of sample_world "[''osgearth_package'', ''map.earth'']"
      "[Flag ''--tms'', Arg ''map.earth'', Opt ''--image'' ''5'']" "''osgearth_package''"]
  from inst wf decided
  have one: "fst (main sample_world (''osgearth_package'' # render ?items)) = 1"
    by simp
  from inst absent have minus: "fst (main sample_world [''osgearth_package'', ''map.earth'']) = - 1"
    by blast
  from wf one absent minus show ?thesis by (intro conjI)
qed

text \<open>
  C5. If the output root folder does not exist after the attempt to make it, the run stops
  there: it prints the failure and the usage text and returns -1, a non-zero exit code, and no
  layer has been packaged.
\<close>

theorem root_folder_failure_aborts:
  assumes "MakeDirectory r \<in> set (snd (main w argv))"
    and "\<not> fileExists_after_makeDirectory w r"
  shows "fst (main w argv) = - 1 \<and> fst (main w argv) \<noteq> 0 \<and>
         snd (main w argv)
           = [MakeDirectory r, Print ''Failed to create root output folder'', PrintUsage] \<and>
         manifest_log (snd (main w argv)) = []"
proof (cases "options_of w argv")
  case None
  with assms(1) show ?thesis
    by (simp add: main_eq usage_def split: if_splits)
next
  case (Some x)
  then obtain m l a where o: "options_of w argv = Some (m, l, a)"
    by (cases x) auto
  show ?thesis
  proof (cases "fileExists_after_makeDirectory w (rootFolder l)")
    case True
    with assms(1) o have "r = rootFolder l"
      by (simp add: main_eq package_MakeDirectory)
    with assms(2) True show ?thesis by simp
  next
    case False
    with assms(1) o show ?thesis
      by (simp add: main_eq)
  qed
qed

theorem root_folder_failure_aborts_witness:
  "MakeDirectory ''/forbidden''
     \<in> set (snd (main sample_world
                  [''osgearth_package'', ''--tms'', ''map.earth'', ''--out'', ''/forbidden'']))
   \<and> \<not> fileExists_after_makeDirectory sample_world ''/forbidden''
   \<and> fst (main sample_world
            [''osgearth_package'', ''--tms'', ''map.earth'', ''--out'', ''/forbidden'']) = - 1"
proof -
  have made: "MakeDirectory ''/forbidden''
     \<in> set (snd (main sample_world
                  [''osgearth_package'', ''--tms'', ''map.earth'', ''--out'', ''/forbidden'']))"
    by code_simp
  have missing: "\<not> fileExists_after_makeDirectory sample_world ''/forbidden''"
    by code_simp
  from root_folder_failure_aborts [OF made missing] made missing show ?thesis
    by blast
qed

text \<open>
  C6. When the output earth file is written and the write fails, the failure is logged as a
  warning, which ends the run with exit code 0; the exit code and the layers packaged and
  manifests written are those of the same run with a successful write.
\<close>

theorem earth_file_failure_is_not_fatal:
  assumes "WriteNodeFile ls f \<in> set (snd (main w argv))"
    and "\<not> writeNodeFile w ls f"
  shows "fst (main w argv) = 0 \<and>
         (\<exists>pre. snd (main w argv) = pre @ [WriteNodeFile ls f, Warn (earth_file_warning f)]) \<and>
         fst (main (w\<lparr>writeNodeFile := \<lambda>ls f. True\<rparr>) argv) = 0 \<and>
         manifest_log (snd (main w argv))
           = manifest_log (snd (main (w\<lparr>writeNodeFile := \<lambda>ls f. True\<rparr>) argv))"
proof -
  from assms(1) obtain m l a where o: "options_of w argv = Some (m, l, a)"
    and e: "fileExists_after_makeDirectory w (rootFolder l)"
    and p: "WriteNodeFile ls f \<in> set (snd (package w m l a))"
    by (auto simp: main_eq usage_def split: option.splits if_splits)
  from o e have m: "main w argv = package w m l a"
    by (simp add: main_eq)
  from package_WriteNodeFile [OF p] assms(2) m
  have "fst (main w argv) = 0"
    and "\<exists>pre. snd (main w argv) = pre @ [WriteNodeFile ls f, Warn (earth_file_warning f)]"
    by simp_all
  then show ?thesis
    by (simp add: main_writeNodeFile)
qed

theorem earth_file_failure_is_not_fatal_witness:
  "WriteNodeFile
     [OutImageLayer ''sat'' ''sat/tms.xml'' ''map.earth.tms_repo/out.earth'',
      OutElevationLayer ''dem'' ''dem/tms.xml'' ''map.earth.tms_repo/out.earth'']
     ''map.earth.tms_repo/out.earth''
     \<in> set (snd (main sample_world
                  [''osgearth_package'', ''--tms'', ''map.earth'', ''--out-earth'', ''out.earth'']))
   \<and> \<not> writeNodeFile sample_world
         [OutImageLayer ''sat'' ''sat/tms.xml'' ''map.earth.tms_repo/out.earth'',
          OutElevationLayer ''dem'' ''dem/tms.xml'' ''map.earth.tms_repo/out.earth'']
         ''map.earth.tms_repo/out.earth''
   \<and> fst (main sample_world
            [''osgearth_package'', ''--tms'', ''map.earth'', ''--out-earth'', ''out.earth'']) = 0"
proof -
  have written: "WriteNodeFile
     [OutImageLayer ''sat'' ''sat/tms.xml'' ''map.earth.tms_repo/out.earth'',
      OutElevationLayer ''dem'' ''dem/tms.xml'' ''map.earth.tms_repo/out.earth'']
     ''map.earth.tms_repo/out.earth''
     \<in> set (snd (main sample_world
                  [''osgearth_package'', ''--tms'', ''map.earth'', ''--out-earth'', ''out.earth'']))"
    by code_simp
  have failed: "\<not> writeNodeFile sample_world
         [OutImageLayer ''sat'' ''sat/tms.xml'' ''map.earth.tms_repo/out.earth'',
          OutElevationLayer ''dem'' ''dem/tms.xml'' ''map.earth.tms_repo/out.earth'']
         ''map.earth.tms_repo/out.earth''"
    by code_simp
  from earth_file_failure_is_not_fatal [OF written failed] written failed show ?thesis
    by blast
qed

text \<open>
  C7. Every elevation layer is packaged with the extension \<open>tif\<close>: whatever the command
  line (with or without \<open>--ext\<close>, with \<open>--elevation n\<close> or in the pass over all layers), the
  packager of every run on an elevation layer has its extension set to \<open>tif\<close>.
\<close>

theorem elevation_runs_use_tif:
  "Run (ElevationLayer i) pk \<in> set (snd (main w argv)) \<Longrightarrow> p_extension pk = Some ''tif''"
  using main_run_settled [of "ElevationLayer i" pk w argv] by auto

theorem elevation_runs_use_tif_witness:
  "Run (ElevationLayer 0)
     \<lparr>p_visitor = Some \<lparr>v_class = TileVisitor, v_progress = False, v_minLevel = Some 0,
                         v_maxLevel = Some 5, v_extents = []\<rparr>,
      p_destination = Some ''map.earth.tms_repo'', p_extension = Some ''tif'',
      p_elevationPixelDepth = Some 32, p_writeOptions = Some []\<rparr>
     \<in> set (snd (main sample_world
                  [''osgearth_package'', ''--tms'', ''map.earth'', ''--ext'', ''jpg'']))
   \<and> p_extension
       (\<lparr>p_visitor = Some \<lparr>v_class = TileVisitor, v_progress = False, v_minLevel = Some 0,
                            v_maxLevel = Some 5, v_extents = []\<rparr>,
         p_destination = Some ''map.earth.tms_repo'', p_extension = Some ''tif'',
         p_elevationPixelDepth = Some 32, p_writeOptions = Some []\<rparr> :: int TMSPackager)
       = Some ''tif''"
proof -
  have run: "Run (ElevationLayer 0)
     \<lparr>p_visitor = Some \<lparr>v_class = TileVisitor, v_progress = False, v_minLevel = Some 0,
                         v_maxLevel = Some 5, v_extents = []\<rparr>,
      p_destination = Some ''map.earth.tms_repo'', p_extension = Some ''tif'',
      p_elevationPixelDepth = Some 32, p_writeOptions = Some []\<rparr>
     \<in> set (snd (main sample_world
                  [''osgearth_package'', ''--tms'', ''map.earth'', ''--ext'', ''jpg'']))"
    by code_simp
  from run elevation_runs_use_tif [OF run] show ?thesis by (rule conjI)
qed

text \<open>
  C8. On a well-formed command line the extents on the visitor of every run are, in the
  spatial reference of the map, one for each \<open>--bounds xmin ymin xmax ymax\<close> in the order
  given, followed, for each \<open>--index\<close>, by one for each feature of that source, its bounds
  reprojected into the spatial reference of the map.
\<close>

theorem visitor_extents_are_bounds_and_features:
  assumes "wf_cmdline w items"
    and "Run lay pk \<in> set (snd (main w (prog # render items)))"
  shows "\<exists>m l a v. options_of w (prog # render items) = Some (m, l, a) \<and>
           p_visitor pk = Some v \<and> v_extents v = spec_extents w m items"
proof -
  from main_run_visitor [OF assms(2)] obtain m l a v
    where o: "options_of w (prog # render items) = Some (m, l, a)"
      and v: "p_visitor pk = Some v"
      and e: "v_extents v = map (\<lambda>b. \<lparr>extent_srs = mapSRS m, extent_bounds = b\<rparr>) (bounds l)"
    by blast
  from e bounds_spec_extents [OF assms(1) o] have "v_extents v = spec_extents w m items"
    by simp
  with o v show ?thesis by blast
qed

theorem visitor_extents_are_bounds_and_features_witness:
  "wf_cmdline sample_world
     [Flag ''--tms'', Opt4 ''--bounds'' ''1'' ''2'' ''3'' ''4'', Arg ''map.earth'',
      Opt ''--index'' ''index.shp'', Opt4 ''--bounds'' ''10'' ''20'' ''30'' ''40'']
   \<and> Run (ImageLayer 0)
       \<lparr>p_visitor = Some
          \<lparr>v_class = TileVisitor, v_progress = False, v_minLevel = Some 0, v_maxLevel = Some 5,
           v_extents =
             [\<lparr>extent_srs = ''wgs84'',
               extent_bounds = \<lparr>xMin = 1, yMin = 2, xMax = 3, yMax = 4 :: int\<rparr>\<rparr>,
              \<lparr>extent_srs = ''wgs84'',
               extent_bounds = \<lparr>xMin = 10, yMin = 20, xMax = 30, yMax = 40\<rparr>\<rparr>,
              \<lparr>extent_srs = ''wgs84'',
               extent_bounds = \<lparr>xMin = 5, yMin = 6, xMax = 7, yMax = 8\<rparr>\<rparr>]\<rparr>,
        p_destination = Some ''map.earth.tms_repo'', p_extension = None,
        p_elevationPixelDepth = Some 32, p_writeOptions = Some []\<rparr>
       \<in> set (snd (main sample_world
            (''osgearth_package'' #
             render [Flag ''--tms'', Opt4 ''--bounds'' ''1'' ''2'' ''3'' ''4'', Arg ''map.earth'',
                     Opt ''--index'' ''index.shp'',
                     Opt4 ''--bounds'' ''10'' ''20'' ''30'' ''40''])))
   \<and> spec_extents sample_world sample_map
        [Flag ''--tms'', Opt4 ''--bounds'' ''1'' ''2'' ''3'' ''4'', Arg ''map.earth'',
         Opt ''--index'' ''index.shp'', Opt4 ''--bounds'' ''10'' ''20'' ''30'' ''40'']
       = [\<lparr>extent_srs = ''wgs84'',
           extent_bounds = \<lparr>xMin = 1, yMin = 2, xMax = 3, yMax = 4\<rparr>\<rparr>,
          \<lparr>extent_srs = ''wgs84'',
           extent_bounds = \<lparr>xMin = 10, yMin = 20, xMax = 30, yMax = 40\<rparr>\<rparr>,
          \<lparr>extent_srs = ''wgs84'',
           extent_bounds = \<lparr>xMin = 5, yMin = 6, xMax = 7, yMax = 8\<rparr>\<rparr>]
   \<and> (\<exists>m l a v. options_of sample_world
          (''osgearth_package'' #
           render [Flag ''--tms'', Opt4 ''--bounds'' ''1'' ''2'' ''3'' ''4'', Arg ''map.earth'',
                   Opt ''--index'' ''index.shp'',
                   Opt4 ''--bounds'' ''10'' ''20'' ''30'' ''40'']) = Some (m, l, a) \<and>
        p_visitor
          \<lparr>p_visitor = Some
             \<lparr>v_class = TileVisitor, v_progress = False, v_minLevel = Some 0,
              v_maxLevel = Some 5,
              v_extents =
                [\<lparr>extent_srs = ''wgs84'',
                  extent_bounds = \<lparr>xMin = 1, yMin = 2, xMax = 3, yMax = 4 :: int\<rparr>\<rparr>,
                 \<lparr>extent_srs = ''wgs84'',
                  extent_bounds = \<lparr>xMin = 10, yMin = 20, xMax = 30, yMax = 40\<rparr>\<rparr>,
                 \<lparr>extent_srs = ''wgs84'',
                  extent_bounds = \<lparr>xMin = 5, yMin = 6, xMax = 7, yMax = 8\<rparr>\<rparr>]\<rparr>,
           p_destination = Some ''map.earth.tms_repo'', p_extension = None,
           p_elevationPixelDepth = Some 32, p_writeOptions = Some []\<rparr> = Some v \<and>
        v_extents v = spec_extents sample_world m
          [Flag ''--tms'', Opt4 ''--bounds'' ''1'' ''2'' ''3'' ''4'', Arg ''map.earth'',
           Opt ''--index'' ''index.shp'', Opt4 ''--bounds'' ''10'' ''20'' ''30'' ''40''])"
proof -
  let ?items = "[Flag ''--tms'', Opt4 ''--bounds'' ''1'' ''2'' ''3'' ''4'', Arg ''map.earth'',
      Opt ''--index'' ''index.shp'', Opt4 ''--bounds'' ''10'' ''20'' ''30'' ''40'']"
  let ?pk = "\<lparr>p_visitor = Some
          \<lparr>v_class = TileVisitor, v_progress = False, v_minLevel = Some 0, v_maxLevel = Some 5,
           v_extents =
             [\<lparr>extent_srs = ''wgs84'',
               extent_bounds = \<lparr>xMin = 1, yMin = 2, xMax = 3, yMax = 4 :: int\<rparr>\<rparr>,
              \<lparr>extent_srs = ''wgs84'',
               extent_bounds = \<lparr>xMin = 10, yMin = 20, xMax = 30, yMax = 40\<rparr>\<rparr>,
              \<lparr>extent_srs = ''wgs84'',
               extent_bounds = \<lparr>xMin = 5, yMin = 6, xMax = 7, yMax = 8\<rparr>\<rparr>]\<rparr>,
        p_destination = Some ''map.earth.tms_repo'', p_extension = None,
        p_elevationPixelDepth = Some 32, p_writeOptions = Some []\<rparr>"
  have wf: "wf_cmdline sample_world ?items" by code_simp
  have run: "Run (ImageLayer 0) ?pk
       \<in> set (snd (main sample_world (''osgearth_package'' # render ?items)))"
    by code_simp
  have spec: "spec_extents sample_world sample_map ?items
       = [\<lparr>extent_srs = ''wgs84'',
           extent_bounds = \<lparr>xMin = 1, yMin = 2, xMax = 3, yMax = 4\<rparr>\<rparr>,
          \<lparr>extent_srs = ''wgs84'',
           extent_bounds = \<lparr>xMin = 10, yMin = 20, xMax = 30, yMax = 40\<rparr>\<rparr>,
          \<lparr>extent_srs = ''wgs84'',
           extent_bounds = \<lparr>xMin = 5, yMin = 6, xMax = 7, yMax = 8\<rparr>\<rparr>]"
    by code_simp
  from wf run spec visitor_extents_are_bounds_and_features [OF wf run]
  show ?thesis by (intro conjI)
qed

text \<open>
  C9. The visitor of every run has its minimum level set to 0 when \<open>--min-level\<close> is not on
  the command line and its maximum level set to 5 when \<open>--max-level\<close> is not; on a
  well-formed command line that gives one of them, once or several times, the level is the
  number of its last occurrence.
\<close>

theorem level_defaults_and_last_occurrence:
  assumes "Run lay pk \<in> set (snd (main w argv))"
  shows "\<exists>v. p_visitor pk = Some v \<and>
     (''--min-level'' \<notin> set (tl argv) \<longrightarrow> v_minLevel v = Some 0) \<and>
     (''--max-level'' \<notin> set (tl argv) \<longrightarrow> v_maxLevel v = Some 5) \<and>
     (argv = prog # render items \<and> wf_cmdline w items \<longrightarrow>
        v_minLevel v = Some (if vals ''--min-level'' items = [] then 0
                             else asUInt w (last (vals ''--min-level'' items))) \<and>
        v_maxLevel v = Some (if vals ''--max-level'' items = [] then 5
                             else asUInt w (last (vals ''--max-level'' items))))"
proof -
  from main_run_visitor [OF assms] obtain m l a v
    where o: "options_of w argv = Some (m, l, a)"
      and v: "p_visitor pk = Some v"
      and lo: "v_minLevel v = Some (minLevel l)"
      and hi: "v_maxLevel v = Some (maxLevel l)"
    by blast
  have "v_minLevel v = Some 0" if "''--min-level'' \<notin> set (tl argv)"
    using options_of_general(3) [OF o that] lo by simp
  moreover have "v_maxLevel v = Some 5" if "''--max-level'' \<notin> set (tl argv)"
    using options_of_general(4) [OF o that] hi by simp
  moreover have
    "v_minLevel v = Some (if vals ''--min-level'' items = [] then 0
                          else asUInt w (last (vals ''--min-level'' items))) \<and>
     v_maxLevel v = Some (if vals ''--max-level'' items = [] then 5
                          else asUInt w (last (vals ''--max-level'' items)))"
    if "argv = prog # render items \<and> wf_cmdline w items"
  proof -
    from that o have wf: "wf_cmdline w items"
      and o': "options_of w (prog # render items) = Some (m, l, a)" by simp_all
    from options_of_wf(4) [OF wf o'] options_of_wf(5) [OF wf o'] lo hi show ?thesis by simp
  qed
  ultimately show ?thesis using v by blast
qed

theorem level_defaults_and_last_occurrence_witness:
  "Run (ImageLayer 0)
     \<lparr>p_visitor = Some \<lparr>v_class = TileVisitor, v_progress = False, v_minLevel = Some 3,
                         v_maxLevel = Some 5, v_extents = ([] :: int GeoExtent list)\<rparr>,
      p_destination = Some ''map.earth.tms_repo'', p_extension = None,
      p_elevationPixelDepth = Some 32, p_writeOptions = Some []\<rparr>
     \<in> set (snd (main sample_world
          (''osgearth_package'' #
           render [Flag ''--tms'', Opt ''--min-level'' ''2'', Arg ''map.earth'',
                   Opt ''--min-level'' ''3''])))
   \<and> ''--max-level'' \<notin> set (tl (''osgearth_package'' #
           render [Flag ''--tms'', Opt ''--min-level'' ''2'', Arg ''map.earth'',
                   Opt ''--min-level'' ''3'']))
   \<and> wf_cmdline sample_world
        [Flag ''--tms'', Opt ''--min-level'' ''2'', Arg ''map.earth'', Opt ''--min-level'' ''3'']
   \<and> asUInt sample_world (last (vals ''--min-level''
        [Flag ''--tms'', Opt ''--min-level'' ''2'', Arg ''map.earth'', Opt ''--min-level'' ''3'']))
       = 3
   \<and> (\<exists>v. p_visitor
          \<lparr>p_visitor = Some \<lparr>v_class = TileVisitor, v_progress = False, v_minLevel = Some 3,
                              v_maxLevel = Some 5, v_extents = ([] :: int GeoExtent list)\<rparr>,
           p_destination = Some ''map.earth.tms_repo'', p_extension = None,
           p_elevationPixelDepth = Some 32, p_writeOptions = Some []\<rparr> = Some v \<and>
         v_minLevel v = Some 3 \<and> v_maxLevel v = Some 5)"
proof -
  let ?items = "[Flag ''--tms'', Opt ''--min-level'' ''2'', Arg ''map.earth'',
                 Opt ''--min-level'' ''3'']"
  let ?pk = "\<lparr>p_visitor = Some \<lparr>v_class = TileVisitor, v_progress = False, v_minLevel = Some 3,
                         v_maxLevel = Some 5, v_extents = ([] :: int GeoExtent list)\<rparr>,
      p_destination = Some ''map.earth.tms_repo'', p_extension = None,
      p_elevationPixelDepth = Some 32, p_writeOptions = Some []\<rparr>"
  have run: "Run (ImageLayer 0) ?pk
     \<in> set (snd (main sample_world (''osgearth_package'' # render ?items)))"
    by code_simp
  have absent: "''--max-level'' \<notin> set (tl (''osgearth_package'' # render ?items))"
    by code_simp
  have wf: "wf_cmdline sample_world ?items" by code_simp
  have given: "vals ''--min-level'' ?items \<noteq> []" by code_simp
  have number: "asUInt sample_world (last (vals ''--min-level'' ?items)) = 3" by code_simp
  from level_defaults_and_last_occurrence [OF run, of "''osgearth_package''" ?items]
  obtain v where v: "p_visitor ?pk = Some v"
    and hi: "''--max-level'' \<notin> set (tl (''osgearth_package'' # render ?items)) \<longrightarrow>
             v_maxLevel v = Some 5"
    and lo: "''osgearth_package'' # render ?items = ''osgearth_package'' # render ?items \<and>
             wf_cmdline sample_world ?items \<longrightarrow>
             v_minLevel v = Some (if vals ''--min-level'' ?items = [] then 0
                                  else asUInt sample_world (last (vals ''--min-level'' ?items)))"
    by blast
  from hi absent have "v_maxLevel v = Some 5" by (rule mp)
  moreover from lo wf given number have "v_minLevel v = Some 3" by simp
  ultimately have "\<exists>v. p_visitor ?pk = Some v \<and> v_minLevel v = Some 3 \<and> v_maxLevel v = Some 5"
    using v by blast
  with run absent wf number show ?thesis by (intro conjI)
qed

text \<open>
  C10, as the claim states it, fails: on the command line
  \<open>osgearth_package --out-earth out.earth --tms map.earth\<close>, without \<open>--out\<close>, the map is
  loaded from \<open>map.earth\<close> (nothing loads from \<open>out.earth\<close>), and the folder that is made and
  that the layers are packaged into is \<open>out.earth.tms_repo\<close>, not \<open>map.earth.tms_repo\<close>.
\<close>

theorem root_folder_named_after_out_earth_counterexample:
  "''--out'' \<notin> set (tl [''osgearth_package'', ''--out-earth'', ''out.earth'', ''--tms'',
                           ''map.earth''])
   \<and> MapNode_load sample_world [''osgearth_package'', ''out.earth''] = None
   \<and> MapNode_load sample_world [''osgearth_package'', ''map.earth''] = Some sample_map
   \<and> map_option fst (options_of sample_world
         [''osgearth_package'', ''--out-earth'', ''out.earth'', ''--tms'', ''map.earth''])
       = Some sample_map
   \<and> fst (main sample_world
            [''osgearth_package'', ''--out-earth'', ''out.earth'', ''--tms'', ''map.earth'']) = 0
   \<and> MakeDirectory ''out.earth.tms_repo''
       \<in> set (snd (main sample_world
            [''osgearth_package'', ''--out-earth'', ''out.earth'', ''--tms'', ''map.earth'']))
   \<and> MakeDirectory ''map.earth.tms_repo''
       \<notin> set (snd (main sample_world
            [''osgearth_package'', ''--out-earth'', ''out.earth'', ''--tms'', ''map.earth'']))
   \<and> Run (ImageLayer 0)
       \<lparr>p_visitor = Some \<lparr>v_class = TileVisitor, v_progress = False, v_minLevel = Some 0,
                           v_maxLevel = Some 5, v_extents = []\<rparr>,
        p_destination = Some ''out.earth.tms_repo'', p_extension = None,
        p_elevationPixelDepth = Some 32, p_writeOptions = Some []\<rparr>
       \<in> set (snd (main sample_world
            [''osgearth_package'', ''--out-earth'', ''out.earth'', ''--tms'', ''map.earth'']))"
  by code_simp

text \<open>
  C10, amended. Without \<open>--out\<close> on the command line there is no usage error for that: the
  root folder is the earth file that line 181 finds, with \<open>.tms_repo\<close> appended, and, when
  the map loads and that folder can be made, the folder is made, the exit code is not -1, and
  every layer is run with that folder as the destination. On a well-formed command line the
  earth file that line 181 finds is the first argument with the ending \<open>.earth\<close> among the
  program name and what is left of the command line there, which still holds the parameter of
  \<open>--out-earth\<close>; it is empty when there is none. So the folder is named after the map's
  earth file only when no argument with that ending stands before it.
\<close>

theorem root_folder_defaults_to_first_earth_argument:
  assumes "''--out'' \<notin> set (tl argv)"
    and "options_of w argv = Some (m, l, a)"
    and "fileExists_after_makeDirectory w (earthFile l @ ''.tms_repo'')"
  shows "rootFolder l = earthFile l @ ''.tms_repo'' \<and>
     (earthFile l = [] \<or> (earthFile l \<in> set argv \<and> ends_with_earth w (earthFile l))) \<and>
     (argv = prog # render items \<and> wf_cmdline w items \<longrightarrow>
        earthFile l =
          (case List.find (ends_with_earth w) (prog # render (left_at_earth_file items)) of
             None \<Rightarrow> [] | Some arg \<Rightarrow> arg)) \<and>
     fst (main w argv) \<noteq> - 1 \<and>
     MakeDirectory (earthFile l @ ''.tms_repo'') \<in> set (snd (main w argv)) \<and>
     (\<forall>lay pk. Run lay pk \<in> set (snd (main w argv)) \<longrightarrow>
        p_destination pk = Some (earthFile l @ ''.tms_repo''))"
proof -
  from options_of_general(6) [OF assms(2) assms(1)]
  have root: "rootFolder l = earthFile l @ ''.tms_repo''" .
  with assms(2,3) have m: "main w argv = package w m l a"
    by (simp add: main_eq)
  have code: "fst (main w argv) \<noteq> - 1"
    using package_exit_range [of w m l a] unfolding m by auto
  have dir: "MakeDirectory (earthFile l @ ''.tms_repo'') \<in> set (snd (main w argv))"
    unfolding m package_MakeDirectory root ..
  have dest: "p_destination pk = Some (earthFile l @ ''.tms_repo'')"
    if "Run lay pk \<in> set (snd (main w argv))" for lay pk
    using main_run_visitor [OF that] assms(2) root by auto
  have found: "earthFile l =
      (case List.find (ends_with_earth w) (prog # render (left_at_earth_file items)) of
         None \<Rightarrow> [] | Some arg \<Rightarrow> arg)"
    if "argv = prog # render items \<and> wf_cmdline w items"
  proof -
    from that assms(2) have wf: "wf_cmdline w items"
      and o: "options_of w (prog # render items) = Some (m, l, a)" by simp_all
    from options_of_wf(16) [OF wf o] show ?thesis
      by (simp only: findArgumentWithExtension_find)
  qed
  have arg: "earthFile l = [] \<or> (earthFile l \<in> set argv \<and> ends_with_earth w (earthFile l))"
    using options_of_general(7) [OF assms(2)] by (simp add: ends_with_earth_def)
  from root arg found code dir dest show ?thesis by blast
qed

theorem root_folder_defaults_to_first_earth_argument_witness:
  "''--out'' \<notin> set (tl (''osgearth_package'' #
      render [Opt ''--out-earth'' ''out.earth'', Flag ''--tms'', Arg ''map.earth'']))
   \<and> wf_cmdline sample_world [Opt ''--out-earth'' ''out.earth'', Flag ''--tms'', Arg ''map.earth'']
   \<and> (case List.find (ends_with_earth sample_world)
              (''osgearth_package'' # render (left_at_earth_file
                 [Opt ''--out-earth'' ''out.earth'', Flag ''--tms'', Arg ''map.earth'']))
       of None \<Rightarrow> [] | Some arg \<Rightarrow> arg) = ''out.earth''
   \<and> map_option (\<lambda>(m, l, a). earthFile l)
        (options_of sample_world (''osgearth_package'' #
           render [Opt ''--out-earth'' ''out.earth'', Flag ''--tms'', Arg ''map.earth'']))
       = Some ''out.earth''
   \<and> fileExists_after_makeDirectory sample_world (''out.earth'' @ ''.tms_repo'')
   \<and> fst (main sample_world (''osgearth_package'' #
        render [Opt ''--out-earth'' ''out.earth'', Flag ''--tms'', Arg ''map.earth''])) \<noteq> - 1
   \<and> MakeDirectory (''out.earth'' @ ''.tms_repo'')
       \<in> set (snd (main sample_world (''osgearth_package'' #
            render [Opt ''--out-earth'' ''out.earth'', Flag ''--tms'', Arg ''map.earth''])))
   \<and> Run (ImageLayer 0)
       \<lparr>p_visitor = Some \<lparr>v_class = TileVisitor, v_progress = False, v_minLevel = Some 0,
                           v_maxLevel = Some 5, v_extents = ([] :: int GeoExtent list)\<rparr>,
        p_destination = Some ''out.earth.tms_repo'', p_extension = None,
        p_elevationPixelDepth = Some 32, p_writeOptions = Some []\<rparr>
       \<in> set (snd (main sample_world (''osgearth_package'' #
            render [Opt ''--out-earth'' ''out.earth'', Flag ''--tms'', Arg ''map.earth''])))
   \<and> p_destination
       \<lparr>p_visitor = Some \<lparr>v_class = TileVisitor, v_progress = False, v_minLevel = Some 0,
                           v_maxLevel = Some 5, v_extents = ([] :: int GeoExtent list)\<rparr>,
        p_destination = Some ''out.earth.tms_repo'', p_extension = None,
        p_elevationPixelDepth = Some 32, p_writeOptions = Some []\<rparr>
       = Some (''out.earth'' @ ''.tms_repo'')"
proof -
  let ?items = "[Opt ''--out-earth'' ''out.earth'', Flag ''--tms'', Arg ''map.earth'']"
  let ?argv = "''osgearth_package'' # render ?items"
  let ?pk = "\<lparr>p_visitor = Some \<lparr>v_class = TileVisitor, v_progress = False, v_minLevel = Some 0,
                           v_maxLevel = Some 5, v_extents = ([] :: int GeoExtent list)\<rparr>,
        p_destination = Some ''out.earth.tms_repo'', p_extension = None,
        p_elevationPixelDepth = Some 32, p_writeOptions = Some []\<rparr>"
  have absent: "''--out'' \<notin> set (tl ?argv)" by code_simp
  have wf: "wf_cmdline sample_world ?items" by code_simp
  have earth: "map_option (\<lambda>(m, l, a). earthFile l) (options_of sample_world ?argv)
       = Some ''out.earth''"
    by code_simp
  then obtain m l a where o: "options_of sample_world ?argv = Some (m, l, a)"
    and e: "earthFile l = ''out.earth''"
    by auto
  have made: "fileExists_after_makeDirectory sample_world (''out.earth'' @ ''.tms_repo'')"
    by code_simp
  then have made': "fileExists_after_makeDirectory sample_world (earthFile l @ ''.tms_repo'')"
    unfolding e .
  have run: "Run (ImageLayer 0) ?pk \<in> set (snd (main sample_world ?argv))"
    by code_simp
  note inst = root_folder_defaults_to_first_earth_argument
    [OF absent o made', of "''osgearth_package''"
       "[Opt ''--out-earth'' ''out.earth'', Flag ''--tms'', Arg ''map.earth'']", unfolded e]
  from inst wf have "''out.earth'' = (case List.find (ends_with_earth sample_world)
              (''osgearth_package'' # render (left_at_earth_file ?items))
       of None \<Rightarrow> [] | Some arg \<Rightarrow> arg)"
    by blast
  then have first: "(case List.find (ends_with_earth sample_world)
              (''osgearth_package'' # render (left_at_earth_file ?items))
       of None \<Rightarrow> [] | Some arg \<Rightarrow> arg) = ''out.earth''"
    by (rule sym)
  from inst have code: "fst (main sample_world ?argv) \<noteq> - 1"
    and dir: "MakeDirectory (''out.earth'' @ ''.tms_repo'') \<in> set (snd (main sample_world ?argv))"
    and dest: "\<forall>lay pk. Run lay pk \<in> set (snd (main sample_world ?argv)) \<longrightarrow>
        p_destination pk = Some (''out.earth'' @ ''.tms_repo'')"
    by blast+
  from dest run have "p_destination ?pk = Some (''out.earth'' @ ''.tms_repo'')"
    by blast
  with absent wf first earth made code dir run show ?thesis by (intro conjI)
qed

end
